theory Spec2Isabelle
  imports Main "HOL-Library.Sublist" "HOL-Library.AList"
begin

section \<open>Python values, dictionaries and errors\<close>

text \<open>
  The program (\<^verbatim>\<open>src/app/hazard_options.py\<close>) turns JSON documents into lists of
  option records. An option record is a Python \<^verbatim>\<open>dict\<close> with string keys; it is
  modelled as a map from keys to values, so that HOL equality of two records is
  Python's \<^verbatim>\<open>==\<close> on dicts (same keys, equal values, insertion order ignored).
  The values that occur are strings, numbers and lists.
\<close>

datatype pyval = PStr string | PInt int | PList "pyval list"

type_synonym pydict = "string \<rightharpoonup> pyval"

text \<open>
  Every exception of the source is a value. \<open>NotModelled\<close> is not a Python exception: it
  marks a replacement field that uses indexing, attribute access, a conversion or a
  format specification (\<^verbatim>\<open>{a[0]}\<close>, \<^verbatim>\<open>{a.b}\<close>, \<^verbatim>\<open>{a!r}\<close>, \<^verbatim>\<open>{a:>8}\<close>), a
  part of the format mini-language that is outside this model.
\<close>

datatype error =
    KeyError string
  | IndexError
  | ValueError
  | TypeError
  | UnboundLocalError
  | NotModelled

section \<open>String primitives\<close>

text \<open>\<^verbatim>\<open>s.startswith(p)\<close>\<close>

definition startswith :: "string \<Rightarrow> string \<Rightarrow> bool" where
  "startswith s p = (take (length p) s = p)"

text \<open>\<^verbatim>\<open>sub in s\<close> on strings: \<open>sub\<close> occurs in \<open>s\<close> as a contiguous substring.\<close>

fun contains :: "string \<Rightarrow> string \<Rightarrow> bool" where
  "contains sub [] = (sub = [])"
| "contains sub (c # cs) = (startswith (c # cs) sub \<or> contains sub cs)"

text \<open>
  \<^verbatim>\<open>s.replace(old, new)\<close>: every non-overlapping occurrence of \<open>old\<close>, found from the
  left, is replaced by \<open>new\<close>. With an empty \<open>old\<close> Python inserts \<open>new\<close> before every
  character and at the end.
\<close>

fun replace_scan :: "string \<Rightarrow> string \<Rightarrow> string \<Rightarrow> string" where
  "replace_scan old new [] = []"
| "replace_scan old new (c # cs) =
     (if startswith (c # cs) old
      then new @ replace_scan old new (drop (length old - 1) cs)
      else c # replace_scan old new cs)"

definition replace :: "string \<Rightarrow> string \<Rightarrow> string \<Rightarrow> string" where
  "replace old new s =
     (if old = [] then new @ concat (map (\<lambda>c. c # new) s)
      else replace_scan old new s)"

section \<open>The Deduplicator: \<^verbatim>\<open>dedupe_dict\<close>\<close>

text \<open>
  \<^verbatim>\<open>
  unique = []
  for item in dict_list:
      if item not in unique:
          unique.append(item)
  return unique
  \<close>
  \<^verbatim>\<open>item not in unique\<close> compares with \<^verbatim>\<open>==\<close>, which is HOL equality on the model.
\<close>

fun dedupe_loop :: "'a list \<Rightarrow> 'a list \<Rightarrow> 'a list" where
  "dedupe_loop [] unique = unique"
| "dedupe_loop (item # rest) unique =
     dedupe_loop rest (if item \<notin> set unique then unique @ [item] else unique)"

definition dedupe_dict :: "'a list \<Rightarrow> 'a list" where
  "dedupe_dict dict_list = dedupe_loop dict_list []"

section \<open>The Label Formatter and the scenario options\<close>

text \<open>
  \<^verbatim>\<open>re.sub(r"(?<!^)(?=[A-Z])", " ", hazard_type)\<close>: a space is inserted before every
  upper-case ASCII letter that is not the first character.
\<close>

definition is_upper :: "char \<Rightarrow> bool" where
  "is_upper c = (c \<in> set ''ABCDEFGHIJKLMNOPQRSTUVWXYZ'')"

definition hazard_label :: "string \<Rightarrow> string" where
  "hazard_label s =
     (case s of [] \<Rightarrow> []
      | c # cs \<Rightarrow> c # concat (map (\<lambda>x. if is_upper x then [CHR '' '', x] else [x]) cs))"

text \<open>
  The body of the loop of \<^verbatim>\<open>get_scenario_options\<close> that computes \<^verbatim>\<open>formatted_id\<close>.
  The two index reads are guarded by the length test, so they cannot raise.
\<close>

definition formatted_id :: "string \<Rightarrow> string" where
  "formatted_id sid =
     (if startswith sid ''ssp'' \<and> length sid = 6
      then ''SSP'' @ [sid ! 3] @ ''-'' @ [sid ! 4] @ ''.'' @ drop 5 sid
      else if startswith sid ''rcp''
      then ''RCP-'' @ replace ''p'' ''.'' (drop 3 sid)
      else sid)"

text \<open>A scenario descriptor of a document: \<^verbatim>\<open>{"id": ..., "years": ...}\<close>.\<close>

record scenario =
  scen_id :: string
  scen_years :: pyval

definition scenario_option :: "scenario \<Rightarrow> pydict" where
  "scenario_option scene =
     [''label'' \<mapsto> PStr (formatted_id (scen_id scene)),
      ''value'' \<mapsto> PStr (scen_id scene),
      ''year_options'' \<mapsto> scen_years scene]"

definition get_scenario_options :: "scenario list \<Rightarrow> pydict list" where
  "get_scenario_options scenarios = dedupe_dict (map scenario_option scenarios)"

section \<open>String formatting: \<^verbatim>\<open>str.format\<close> and \<^verbatim>\<open>str.format_map\<close>\<close>

text \<open>
  The templates of a document are formatted with \<^verbatim>\<open>template.format(**param_dict)\<close> and
  with \<^verbatim>\<open>template.format_map(CustomDict(**param_dict))\<close>. Both walk the template from
  the left, as CPython's \<^verbatim>\<open>MarkupIterator\<close> does: \<^verbatim>\<open>{{\<close> and \<^verbatim>\<open>}}\<close> stand for one
  brace, a lone \<^verbatim>\<open>}\<close> or a \<^verbatim>\<open>{\<close> at the end of the string is a \<^verbatim>\<open>ValueError\<close>, and
  any other \<^verbatim>\<open>{\<close> opens a replacement field that runs to the next \<^verbatim>\<open>}\<close>. The first
  error met, from the left, is the one raised. Parameter values are strings, and a
  string is rendered as itself.

  \<open>parse_field\<close> reads a field name up to its closing brace and returns it with the
  rest of the template.
\<close>

fun parse_field :: "string \<Rightarrow> error + (string \<times> string)" where
  "parse_field [] = Inl ValueError"
| "parse_field (c # cs) =
     (if c = CHR ''{'' then Inl ValueError
      else if c = CHR ''}'' then Inr ([], cs)
      else if c = CHR ''['' \<or> c = CHR '':'' \<or> c = CHR ''!'' then Inl NotModelled
      else (case parse_field cs of
              Inl e \<Rightarrow> Inl e
            | Inr (name, rest) \<Rightarrow> Inr (c # name, rest)))"

definition is_digit :: "char \<Rightarrow> bool" where
  "is_digit c = (c \<in> set ''0123456789'')"

definition digit_val :: "char \<Rightarrow> nat" where
  "digit_val c = of_char c - 48"

definition decimal :: "string \<Rightarrow> nat" where
  "decimal ds = foldl (\<lambda>acc c. 10 * acc + digit_val c) 0 ds"

text \<open>
  The value of a field. An empty or all-digit name is positional: there are no
  positional arguments, so \<^verbatim>\<open>format\<close> raises \<^verbatim>\<open>IndexError\<close> and \<^verbatim>\<open>format_map\<close>
  raises \<^verbatim>\<open>ValueError\<close> (the parameter \<open>positional\<close>); an index beyond
  \<^verbatim>\<open>PY_SSIZE_T_MAX\<close> (64 bit) is a \<^verbatim>\<open>ValueError\<close> in both. Any other name is looked
  up in the mapping.
\<close>

definition field_value :: "(string \<Rightarrow> error + string) \<Rightarrow> error \<Rightarrow> string \<Rightarrow> error + string" where
  "field_value lookup positional name =
     (if CHR ''.'' \<in> set name then Inl NotModelled
      else if list_all is_digit name
      then (if decimal name > 9223372036854775807 then Inl ValueError else Inl positional)
      else lookup name)"

lemma parse_field_shorter: "parse_field s = Inr (name, rest) \<Longrightarrow> length rest < length s"
  by (induction s arbitrary: name) (auto split: if_splits sum.splits)

function vformat :: "(string \<Rightarrow> error + string) \<Rightarrow> error \<Rightarrow> string \<Rightarrow> error + string" where
  "vformat lookup positional [] = Inr []"
| "vformat lookup positional (c # cs) =
     (if c = CHR ''{'' then
        (case cs of
           [] \<Rightarrow> Inl ValueError
         | d # ds \<Rightarrow>
             if d = CHR ''{'' then
               (case vformat lookup positional ds of
                  Inl e \<Rightarrow> Inl e
                | Inr out \<Rightarrow> Inr (CHR ''{'' # out))
             else
               (case parse_field cs of
                  Inl e \<Rightarrow> Inl e
                | Inr (name, rest) \<Rightarrow>
                    (case field_value lookup positional name of
                       Inl e \<Rightarrow> Inl e
                     | Inr v \<Rightarrow>
                         (case vformat lookup positional rest of
                            Inl e \<Rightarrow> Inl e
                          | Inr out \<Rightarrow> Inr (v @ out)))))
      else if c = CHR ''}'' then
        (case cs of
           [] \<Rightarrow> Inl ValueError
         | d # ds \<Rightarrow>
             if d = CHR ''}'' then
               (case vformat lookup positional ds of
                  Inl e \<Rightarrow> Inl e
                | Inr out \<Rightarrow> Inr (CHR ''}'' # out))
             else Inl ValueError)
      else
        (case vformat lookup positional cs of
           Inl e \<Rightarrow> Inl e
         | Inr out \<Rightarrow> Inr (c # out)))"
  by pat_completeness auto
termination
  by (relation "measure (\<lambda>(lookup, positional, s). length s)")
     (auto simp del: parse_field.simps dest!: parse_field_shorter)

text \<open>
  \<^verbatim>\<open>**param_dict\<close> passes a plain dict, whose missing key is a \<^verbatim>\<open>KeyError\<close>;
  \<^verbatim>\<open>CustomDict.__missing__\<close> returns \<^verbatim>\<open>"{" + key + "}"\<close> instead. A \<^verbatim>\<open>param_dict\<close> is
  held as the list of its items in insertion order.
\<close>

definition kwargs_lookup :: "(string \<times> string) list \<Rightarrow> string \<Rightarrow> error + string" where
  "kwargs_lookup kwargs key =
     (case map_of kwargs key of None \<Rightarrow> Inl (KeyError key) | Some v \<Rightarrow> Inr v)"

definition custom_lookup :: "(string \<times> string) list \<Rightarrow> string \<Rightarrow> error + string" where
  "custom_lookup kwargs key =
     (case map_of kwargs key of None \<Rightarrow> Inr (''{'' @ key @ ''}'') | Some v \<Rightarrow> Inr v)"

definition str_format :: "string \<Rightarrow> (string \<times> string) list \<Rightarrow> error + string" where
  "str_format template kwargs = vformat (kwargs_lookup kwargs) IndexError template"

definition format_map_custom :: "string \<Rightarrow> (string \<times> string) list \<Rightarrow> error + string" where
  "format_map_custom template kwargs = vformat (custom_lookup kwargs) ValueError template"

section \<open>Documents and the Indicator Expander\<close>

text \<open>
  A document is the JSON object fetched for one catalog item. The model keeps the
  fields of \<^verbatim>\<open>data["properties"]\<close> that the program reads, with the types it needs
  them to have: \<open>params\<close> is the dict \<^verbatim>\<open>osc-hazard:params\<close> as the list of its items in
  insertion order (its keys are distinct), each value list a list of strings. A JSON
  \<^verbatim>\<open>null\<close> for \<^verbatim>\<open>indicator_model_id\<close> is falsy like the empty string.
\<close>

record document =
  hazard_type :: string
  params :: "(string \<times> string list) list"
  scenarios :: "scenario list"
  display_name :: string
  indicator_id :: string
  path :: string
  indicator_model_id :: string
  indicator_model_gcm :: string

text \<open>
  \<^verbatim>\<open>itertools.product(*pools)\<close>, as the Python documentation defines it:
  \<^verbatim>\<open>
  result = [[]]
  for pool in pools:
      result = [x + [y] for x in result for y in pool]
  \<close>
\<close>

definition itertools_product :: "'a list list \<Rightarrow> 'a list list" where
  "itertools_product pools =
     foldl (\<lambda>result pool. concat (map (\<lambda>x. map (\<lambda>y. x @ [y]) pool) result)) [[]] pools"

text \<open>
  \<^verbatim>\<open>dict(zip(keys, values))\<close>: the pairs are inserted from the left; a key that is
  already there keeps its place and takes the new value.
\<close>

definition dict_zip :: "string list \<Rightarrow> string list \<Rightarrow> (string \<times> string) list" where
  "dict_zip ks vs = foldl (\<lambda>d (k, v). AList.update k v d) [] (zip ks vs)"

text \<open>
  The loop \<^verbatim>\<open>for key in param_dict.keys()\<close> of \<^verbatim>\<open>get_indicator_options\<close>. It assigns
  the locals \<^verbatim>\<open>display_name\<close> and \<^verbatim>\<open>path\<close> once per key; the state is the pair of the
  two, \<open>None\<close> while they are unbound.
\<close>

fun key_loop ::
  "document \<Rightarrow> (string \<times> string) list \<Rightarrow> string list \<Rightarrow> (string \<times> string) option
   \<Rightarrow> error + (string \<times> string) option" where
  "key_loop data param_dict [] locals = Inr locals"
| "key_loop data param_dict (key # keys) locals =
     (case (if \<not> contains key (indicator_id data)
            then str_format (replace (''{'' @ key @ ''}'') [] (display_name data)) param_dict
            else str_format (display_name data) param_dict) of
        Inl e \<Rightarrow> Inl e
      | Inr dn \<Rightarrow>
          (case format_map_custom (path data) param_dict of
             Inl e \<Rightarrow> Inl e
           | Inr p \<Rightarrow> key_loop data param_dict keys (Some (dn, p))))"

text \<open>
  The body of the loop \<^verbatim>\<open>for values in param_values\<close> for one \<^verbatim>\<open>param_dict\<close>. The two
  locals are assigned in every iteration, by the branch \<^verbatim>\<open>if not param_dict\<close> when the
  combination is empty and by the key loop otherwise (it then runs at least once), so
  a value left by an earlier iteration is never read.
\<close>

definition indicator_option :: "document \<Rightarrow> (string \<times> string) list \<Rightarrow> error + pydict" where
  "indicator_option data param_dict =
     (case key_loop data param_dict (map fst param_dict)
             (if param_dict = [] then Some (display_name data, path data) else None) of
        Inl e \<Rightarrow> Inl e
      | Inr locals \<Rightarrow>
          (case str_format (replace ''/'' ''_'' (indicator_id data)) param_dict of
             Inl e \<Rightarrow> Inl e
           | Inr iid \<Rightarrow>
               (let iid1 = (if indicator_model_id data \<noteq> []
                            then iid @ ''_'' @ replace ''/'' ''_'' (indicator_model_id data)
                            else iid);
                    iid2 = (if indicator_model_gcm data \<noteq> ''unknown''
                               \<and> indicator_model_gcm data \<noteq> ''{gcm}''
                            then iid1 @ ''_'' @ indicator_model_gcm data
                            else iid1)
                in case locals of
                     None \<Rightarrow> Inl UnboundLocalError
                   | Some (dn, p) \<Rightarrow>
                       Inr [''label'' \<mapsto> PStr dn, ''value'' \<mapsto> PStr iid2, ''path'' \<mapsto> PStr p])))"

fun indicator_loop :: "document \<Rightarrow> string list list \<Rightarrow> error + pydict list" where
  "indicator_loop data [] = Inr []"
| "indicator_loop data (vals # rest) =
     (case indicator_option data (dict_zip (map fst (params data)) vals) of
        Inl e \<Rightarrow> Inl e
      | Inr r \<Rightarrow>
          (case indicator_loop data rest of
             Inl e \<Rightarrow> Inl e
           | Inr rs \<Rightarrow> Inr (r # rs)))"

definition get_indicator_options :: "document \<Rightarrow> error + pydict list" where
  "get_indicator_options data =
     (case indicator_loop data (itertools_product (map snd (params data))) of
        Inl e \<Rightarrow> Inl e
      | Inr indicator_options \<Rightarrow> Inr (dedupe_dict indicator_options))"

section \<open>The Option Extractor\<close>

definition get_hazard_types :: "document \<Rightarrow> pydict list" where
  "get_hazard_types data =
     dedupe_dict [[''label'' \<mapsto> PStr (hazard_label (hazard_type data)),
                   ''value'' \<mapsto> PStr (hazard_type data)]]"

definition get_climate_model_options :: "(string \<times> string list) list \<Rightarrow> pydict list" where
  "get_climate_model_options ps =
     (case map_of ps ''gcm'' of
        Some gcms \<Rightarrow> map (\<lambda>gcm. [''value'' \<mapsto> PStr gcm, ''label'' \<mapsto> PStr (''CMIP6: '' @ gcm)]) gcms
      | None \<Rightarrow> [])"

text \<open>
  \<^verbatim>\<open>get_menu_items_from_file\<close> returns the tuple
  \<^verbatim>\<open>(indicator_options, climate_model_options, scenario_options, hazard_types)\<close>.
\<close>

definition get_menu_items_from_file ::
  "document \<Rightarrow> error + (pydict list \<times> pydict list \<times> pydict list \<times> pydict list)" where
  "get_menu_items_from_file data =
     (let climate_model_options = get_climate_model_options (params data);
          scenario_options = get_scenario_options (scenarios data)
      in case get_indicator_options data of
           Inl e \<Rightarrow> Inl e
         | Inr indicator_options \<Rightarrow>
             Inr (indicator_options, climate_model_options, scenario_options,
                  get_hazard_types data))"

section \<open>The Cross-Link Merger: \<^verbatim>\<open>update_options\<close>\<close>

text \<open>
  \<^verbatim>\<open>options_dicts\<close> is a list of dicts \<^verbatim>\<open>{"name": ..., "list": ...}\<close>, held as pairs of
  the name and the list. Records are Python objects that the source mutates in place;
  the model passes values. The two agree here: every record and every link array is
  built afresh for one document, the records of a single list are only read (for
  their \<^verbatim>\<open>value\<close>) before the call that mutates them, and a record that has been
  appended to a main list is afterwards reached through that list only.

  \<^verbatim>\<open>v in container\<close>: membership in a list by \<^verbatim>\<open>==\<close>, the substring test on two
  strings, a \<^verbatim>\<open>TypeError\<close> otherwise.
\<close>

fun py_in :: "pyval \<Rightarrow> pyval \<Rightarrow> error + bool" where
  "py_in v (PList xs) = Inr (v \<in> set xs)"
| "py_in (PStr a) (PStr s) = Inr (contains a s)"
| "py_in v (PStr s) = Inl TypeError"
| "py_in v (PInt n) = Inl TypeError"

text \<open>
  \<^verbatim>\<open>[option["value"] for option in options_list
     if option["value"] not in main_item[options_name]]\<close>,
  where \<open>current\<close> is the value of \<^verbatim>\<open>main_item[options_name]\<close>: the comprehension is
  evaluated in full before anything is appended, so \<open>current\<close> does not change.
\<close>

fun new_values :: "pyval \<Rightarrow> pydict list \<Rightarrow> error + pyval list" where
  "new_values current [] = Inr []"
| "new_values current (option # rest) =
     (case option ''value'' of
        None \<Rightarrow> Inl (KeyError ''value'')
      | Some v \<Rightarrow>
          (case py_in v current of
             Inl e \<Rightarrow> Inl e
           | Inr present \<Rightarrow>
               (case new_values current rest of
                  Inl e \<Rightarrow> Inl e
                | Inr vs \<Rightarrow> Inr (if present then vs else v # vs))))"

text \<open>\<^verbatim>\<open>current += new\<close> with a list on the right: only a list can be extended.\<close>

definition iadd :: "pyval \<Rightarrow> pyval list \<Rightarrow> error + pyval" where
  "iadd current new =
     (case current of PList old \<Rightarrow> Inr (PList (old @ new)) | _ \<Rightarrow> Inl TypeError)"

text \<open>
  The loop \<^verbatim>\<open>for option in options_dicts\<close> on a matching \<^verbatim>\<open>main_item\<close>. The augmented
  assignment reads \<^verbatim>\<open>main_item[options_name]\<close> first: a missing key is a \<^verbatim>\<open>KeyError\<close>.
\<close>

fun extend_links :: "pydict \<Rightarrow> (string \<times> pydict list) list \<Rightarrow> error + pydict" where
  "extend_links main_item [] = Inr main_item"
| "extend_links main_item ((options_name, options_list) # rest) =
     (if options_list \<noteq> [] then
        (case main_item options_name of
           None \<Rightarrow> Inl (KeyError options_name)
         | Some current \<Rightarrow>
             (case new_values current options_list of
                Inl e \<Rightarrow> Inl e
              | Inr new \<Rightarrow>
                  (case iadd current new of
                     Inl e \<Rightarrow> Inl e
                   | Inr updated \<Rightarrow> extend_links (main_item(options_name \<mapsto> updated)) rest)))
      else extend_links main_item rest)"

text \<open>\<^verbatim>\<open>[option["value"] for option in options_list]\<close>\<close>

fun values_of :: "pydict list \<Rightarrow> error + pyval list" where
  "values_of [] = Inr []"
| "values_of (option # rest) =
     (case option ''value'' of
        None \<Rightarrow> Inl (KeyError ''value'')
      | Some v \<Rightarrow>
          (case values_of rest of
             Inl e \<Rightarrow> Inl e
           | Inr vs \<Rightarrow> Inr (v # vs)))"

text \<open>The loop \<^verbatim>\<open>for option in options_dicts\<close> on a \<^verbatim>\<open>single_item\<close> that found no match.\<close>

fun init_links :: "pydict \<Rightarrow> (string \<times> pydict list) list \<Rightarrow> error + pydict" where
  "init_links single_item [] = Inr single_item"
| "init_links single_item ((options_name, options_list) # rest) =
     (if options_list \<noteq> [] then
        (case values_of options_list of
           Inl e \<Rightarrow> Inl e
         | Inr vs \<Rightarrow> init_links (single_item(options_name \<mapsto> PList vs)) rest)
      else init_links single_item rest)"

text \<open>
  The loop \<^verbatim>\<open>for main_item in main_list\<close> with its \<^verbatim>\<open>break\<close>: \<open>Some\<close> of the updated
  list when a record with the label of \<^verbatim>\<open>single_item\<close> was found (the first one is
  extended), \<open>None\<close> when the loop ran to its end.
\<close>

fun find_and_extend ::
  "pydict \<Rightarrow> pydict list \<Rightarrow> (string \<times> pydict list) list \<Rightarrow> error + pydict list option" where
  "find_and_extend single_item [] options_dicts = Inr None"
| "find_and_extend single_item (main_item # rest) options_dicts =
     (case main_item ''label'' of
        None \<Rightarrow> Inl (KeyError ''label'')
      | Some l \<Rightarrow>
          (case single_item ''label'' of
             None \<Rightarrow> Inl (KeyError ''label'')
           | Some l' \<Rightarrow>
               if l = l' then
                 (case extend_links main_item options_dicts of
                    Inl e \<Rightarrow> Inl e
                  | Inr updated \<Rightarrow> Inr (Some (updated # rest)))
               else
                 (case find_and_extend single_item rest options_dicts of
                    Inl e \<Rightarrow> Inl e
                  | Inr None \<Rightarrow> Inr None
                  | Inr (Some rest') \<Rightarrow> Inr (Some (main_item # rest')))))"

text \<open>The body of the loop \<^verbatim>\<open>for single_item in single_list\<close>, with the \<^verbatim>\<open>else\<close> of the inner loop.\<close>

definition merge_item ::
  "pydict \<Rightarrow> pydict list \<Rightarrow> (string \<times> pydict list) list \<Rightarrow> error + pydict list" where
  "merge_item single_item main_list options_dicts =
     (case find_and_extend single_item main_list options_dicts of
        Inl e \<Rightarrow> Inl e
      | Inr (Some main_list') \<Rightarrow> Inr main_list'
      | Inr None \<Rightarrow>
          (case (if options_dicts \<noteq> [] then init_links single_item options_dicts
                 else Inr single_item) of
             Inl e \<Rightarrow> Inl e
           | Inr item \<Rightarrow> Inr (main_list @ [item])))"

fun update_options ::
  "pydict list \<Rightarrow> pydict list \<Rightarrow> (string \<times> pydict list) list \<Rightarrow> error + pydict list" where
  "update_options [] main_list options_dicts = Inr main_list"
| "update_options (single_item # rest) main_list options_dicts =
     (case merge_item single_item main_list options_dicts of
        Inl e \<Rightarrow> Inl e
      | Inr main_list' \<Rightarrow> update_options rest main_list' options_dicts)"

section \<open>The merge over a catalog: \<^verbatim>\<open>create_menu_options\<close>\<close>

text \<open>
  The four accumulators, under the keys of the dict that \<^verbatim>\<open>create_menu_options\<close>
  returns. The catalog and the download of its items are input and output: the model
  takes the documents in the order of the catalog's item links.
\<close>

record menu_options =
  climateModelOptions :: "pydict list"
  scenarioOptions :: "pydict list"
  indicatorOptions :: "pydict list"
  hazardTypes :: "pydict list"

definition merge_document :: "document \<Rightarrow> menu_options \<Rightarrow> error + menu_options" where
  "merge_document data acc =
     (case get_menu_items_from_file data of
        Inl e \<Rightarrow> Inl e
      | Inr (indicator_options_single, climate_model_options_single,
             scenario_options_single, hazard_types_single) \<Rightarrow>
      (case update_options hazard_types_single (hazardTypes acc)
              [(''indicator_options'', indicator_options_single)] of
        Inl e \<Rightarrow> Inl e
      | Inr hazard_types \<Rightarrow>
      (case update_options indicator_options_single (indicatorOptions acc)
              [(''climate_model_options'', climate_model_options_single),
               (''scenario_options'', scenario_options_single)] of
        Inl e \<Rightarrow> Inl e
      | Inr indicator_options \<Rightarrow>
      (case update_options climate_model_options_single (climateModelOptions acc)
              [(''scenario_options'', scenario_options_single)] of
        Inl e \<Rightarrow> Inl e
      | Inr climate_model_options \<Rightarrow>
      (case update_options scenario_options_single (scenarioOptions acc) [] of
        Inl e \<Rightarrow> Inl e
      | Inr scenario_options \<Rightarrow>
          Inr \<lparr>climateModelOptions = climate_model_options,
               scenarioOptions = scenario_options,
               indicatorOptions = indicator_options,
               hazardTypes = hazard_types\<rparr>)))))"

fun menu_loop :: "document list \<Rightarrow> menu_options \<Rightarrow> error + menu_options" where
  "menu_loop [] acc = Inr acc"
| "menu_loop (data # rest) acc =
     (case merge_document data acc of
        Inl e \<Rightarrow> Inl e
      | Inr acc' \<Rightarrow> menu_loop rest acc')"

definition create_menu_options :: "document list \<Rightarrow> error + menu_options" where
  "create_menu_options documents =
     menu_loop documents
       \<lparr>climateModelOptions = [], scenarioOptions = [], indicatorOptions = [], hazardTypes = []\<rparr>"

section \<open>The specification's wording\<close>

text \<open>
  The identifier of an indicator as the specification words it: the
  \<^verbatim>\<open>indicator_id\<close> template is formatted with the combination first and every \<^verbatim>\<open>/\<close>
  is replaced by \<^verbatim>\<open>_\<close> afterwards; then the model id and the GCM are appended. It is
  compared with what \<^verbatim>\<open>get_indicator_options\<close> computes.
\<close>

definition spec_indicator_value :: "document \<Rightarrow> (string \<times> string) list \<Rightarrow> error + string" where
  "spec_indicator_value data combination =
     (case str_format (indicator_id data) combination of
        Inl e \<Rightarrow> Inl e
      | Inr s \<Rightarrow>
          Inr (map (\<lambda>c. if c = CHR ''/'' then CHR ''_'' else c) s
               @ (if indicator_model_id data \<noteq> []
                  then ''_'' @ map (\<lambda>c. if c = CHR ''/'' then CHR ''_'' else c) (indicator_model_id data)
                  else [])
               @ (if indicator_model_gcm data \<noteq> ''unknown'' \<and> indicator_model_gcm data \<noteq> ''{gcm}''
                  then ''_'' @ indicator_model_gcm data
                  else [])))"

text \<open>
  A placeholder \<^verbatim>\<open>{name}\<close> in the sense of the specification: the name is a key, not
  a position (it is not empty and not a number) and it has none of the characters
  that end a field name or start an index, an attribute, a conversion or a format
  specification.
\<close>

definition plain_name :: "string \<Rightarrow> bool" where
  "plain_name name =
     (\<not> list_all is_digit name \<and> list_all (\<lambda>c. c \<notin> set ''{}[:!.'') name)"

section \<open>Properties of the Deduplicator\<close>

lemma set_dedupe_loop: "set (dedupe_loop xs acc) = set xs \<union> set acc"
  by (induction xs arbitrary: acc) auto

lemma distinct_dedupe_loop: "distinct acc \<Longrightarrow> distinct (dedupe_loop xs acc)"
  by (induction xs arbitrary: acc) auto

lemma dedupe_loop_append:
  "dedupe_loop (xs @ ys) acc = dedupe_loop ys (dedupe_loop xs acc)"
  by (induction xs arbitrary: acc) auto

lemma dedupe_loop_distinct_id:
  "distinct (acc @ xs) \<Longrightarrow> dedupe_loop xs acc = acc @ xs"
  by (induction xs arbitrary: acc) auto

lemma dedupe_loop_prefix: "\<exists>zs. dedupe_loop xs acc = acc @ zs"
proof (induction xs arbitrary: acc)
  case Nil
  show ?case by simp
next
  case (Cons x xs)
  show ?case
  proof (cases "x \<in> set acc")
    case True
    with Cons.IH [of acc] show ?thesis by simp
  next
    case False
    from Cons.IH [of "acc @ [x]"] obtain zs where
      "dedupe_loop xs (acc @ [x]) = (acc @ [x]) @ zs" by blast
    with False show ?thesis by simp
  qed
qed

lemma dedupe_dict_snoc:
  "dedupe_dict (xs @ [x]) =
     (if x \<in> set (dedupe_dict xs) then dedupe_dict xs else dedupe_dict xs @ [x])"
  by (simp add: dedupe_dict_def dedupe_loop_append)

lemma distinct_dedupe_dict: "distinct (dedupe_dict xs)"
  by (simp add: dedupe_dict_def distinct_dedupe_loop)

lemma set_dedupe_dict: "set (dedupe_dict xs) = set xs"
  by (simp add: dedupe_dict_def set_dedupe_loop)

lemma dedupe_dict_distinct_id: "distinct xs \<Longrightarrow> dedupe_dict xs = xs"
  using dedupe_loop_distinct_id [of "[]" xs] by (simp add: dedupe_dict_def)

lemma subseq_dedupe_loop: "subseq (dedupe_loop xs acc) (acc @ xs)"
proof (induction xs arbitrary: acc)
  case Nil
  show ?case by simp
next
  case (Cons x xs)
  show ?case
  proof (cases "x \<in> set acc")
    case True
    have "subseq (acc @ xs) (acc @ x # xs)"
      by (rule list_emb_append_mono) (simp_all add: subseq_Cons')
    with Cons.IH [of acc] True show ?thesis
      by (auto intro: subseq_order.trans)
  next
    case False
    with Cons.IH [of "acc @ [x]"] show ?thesis by simp
  qed
qed

text \<open>
  Claim C9. \<^verbatim>\<open>dedupe_dict\<close> keeps the records in first-seen order and drops exactly the
  records equal to one it has already kept: the result is a subsequence of the input,
  reading one more record \<open>x\<close> after \<open>L\<close> drops \<open>x\<close> if it equals a kept record and
  appends it otherwise. Hence the result has no two equal elements, and deduplicating
  twice is deduplicating once.
\<close>

theorem dedupe_dict_first_seen:
  "subseq (dedupe_dict L) L
   \<and> dedupe_dict [] = ([] :: 'a list)
   \<and> dedupe_dict (L @ [x]) =
       (if x \<in> set (dedupe_dict L) then dedupe_dict L else dedupe_dict L @ [x])
   \<and> distinct (dedupe_dict L)
   \<and> dedupe_dict (dedupe_dict L) = dedupe_dict L"
proof -
  have "subseq (dedupe_dict L) L"
    using subseq_dedupe_loop [of L "[]"] by (simp add: dedupe_dict_def)
  moreover have "dedupe_dict [] = ([] :: 'a list)"
    by (simp add: dedupe_dict_def)
  moreover note dedupe_dict_snoc [of L x] distinct_dedupe_dict [of L]
  moreover have "dedupe_dict (dedupe_dict L) = dedupe_dict L"
    by (rule dedupe_dict_distinct_id) (rule distinct_dedupe_dict)
  ultimately show ?thesis by blast
qed

theorem dedupe_dict_first_seen_witness:
  "dedupe_dict [1, 2, 1, 3, 2 :: nat] = [1, 2, 3]
   \<and> dedupe_dict ([1, 2, 1, 3 :: nat] @ [2]) = dedupe_dict [1, 2, 1, 3]
   \<and> dedupe_dict ([1, 2, 1 :: nat] @ [3]) = dedupe_dict [1, 2, 1] @ [3]
   \<and> subseq (dedupe_dict [1, 2, 1, 3, 2 :: nat]) [1, 2, 1, 3, 2]
   \<and> distinct (dedupe_dict [1, 2, 1, 3, 2 :: nat])
   \<and> dedupe_dict (dedupe_dict [1, 2, 1, 3, 2 :: nat]) = dedupe_dict [1, 2, 1, 3, 2]"
  using dedupe_dict_first_seen [of "[1, 2, 1, 3 :: nat]" 2]
    dedupe_dict_first_seen [of "[1, 2, 1 :: nat]" 3]
    dedupe_dict_first_seen [of "[1, 2, 1, 3, 2 :: nat]" 0]
  by (simp add: dedupe_dict_def)

section \<open>Properties of the Label Formatter\<close>

lemma replace_scan_char:
  "replace_scan [a] [b] s = map (\<lambda>c. if c = a then b else c) s"
  by (induction s) (auto simp: startswith_def)

lemma replace_char: "replace [a] [b] s = map (\<lambda>c. if c = a then b else c) s"
  by (simp add: replace_def replace_scan_char)

text \<open>
  Claim C8, as stated, gives \<^verbatim>\<open>RCP-4.5\<close> as the label of \<^verbatim>\<open>rcp45\<close>. The id has no
  \<^verbatim>\<open>p\<close> after its prefix, so nothing is replaced and the label is \<^verbatim>\<open>RCP-45\<close>.
\<close>

theorem scenario_label_rcp45_counterexample:
  "formatted_id ''rcp45'' \<noteq> ''RCP-4.5'' \<and> formatted_id ''rcp45'' = ''RCP-45''"
  by (simp add: formatted_id_def startswith_def replace_char)

text \<open>
  Claim C8, amended. The label of a scenario: an id that starts with \<^verbatim>\<open>ssp\<close> and has
  length 6 gives \<^verbatim>\<open>SSP\<close>, the character at position 3, \<^verbatim>\<open>-\<close>, the character at
  position 4, \<^verbatim>\<open>.\<close> and the characters from position 5 on; an id that starts with
  \<^verbatim>\<open>rcp\<close> gives \<^verbatim>\<open>RCP-\<close> and the rest of the id with every \<^verbatim>\<open>p\<close> turned into \<^verbatim>\<open>.\<close>;
  any other id is its own label. This is the \<^verbatim>\<open>label\<close> field of the scenario record.
  So \<^verbatim>\<open>ssp126\<close> gives \<^verbatim>\<open>SSP1-2.6\<close>, \<^verbatim>\<open>rcp4p5\<close> gives \<^verbatim>\<open>RCP-4.5\<close>, \<^verbatim>\<open>rcp45\<close> gives
  \<^verbatim>\<open>RCP-45\<close> and \<^verbatim>\<open>historical\<close> stays as it is.
\<close>

theorem scenario_label_cases:
  "formatted_id sid =
     (if take 3 sid = ''ssp'' \<and> length sid = 6
      then ''SSP'' @ [sid ! 3] @ ''-'' @ [sid ! 4] @ ''.'' @ drop 5 sid
      else if take 3 sid = ''rcp''
      then ''RCP-'' @ map (\<lambda>c. if c = CHR ''p'' then CHR ''.'' else c) (drop 3 sid)
      else sid)
   \<and> scenario_option \<lparr>scen_id = sid, scen_years = ys\<rparr> ''label'' = Some (PStr (formatted_id sid))
   \<and> formatted_id ''ssp126'' = ''SSP1-2.6''
   \<and> formatted_id ''rcp4p5'' = ''RCP-4.5''
   \<and> formatted_id ''rcp45'' = ''RCP-45''
   \<and> formatted_id ''historical'' = ''historical''"
proof -
  have three: "startswith s [a, b, c] = (take 3 s = [a, b, c])" for s :: string and a b c
    by (simp add: startswith_def numeral_3_eq_3)
  have "formatted_id sid =
     (if take 3 sid = ''ssp'' \<and> length sid = 6
      then ''SSP'' @ [sid ! 3] @ ''-'' @ [sid ! 4] @ ''.'' @ drop 5 sid
      else if take 3 sid = ''rcp''
      then ''RCP-'' @ map (\<lambda>c. if c = CHR ''p'' then CHR ''.'' else c) (drop 3 sid)
      else sid)"
    unfolding formatted_id_def three replace_char by (rule refl)
  moreover have
    "scenario_option \<lparr>scen_id = sid, scen_years = ys\<rparr> ''label'' = Some (PStr (formatted_id sid))"
    by (simp add: scenario_option_def)
  moreover have "formatted_id ''ssp126'' = ''SSP1-2.6''"
    and "formatted_id ''rcp4p5'' = ''RCP-4.5''"
    and "formatted_id ''rcp45'' = ''RCP-45''"
    and "formatted_id ''historical'' = ''historical''"
    by (simp_all add: formatted_id_def startswith_def replace_char)
  ultimately show ?thesis by blast
qed

theorem scenario_label_cases_witness:
  "formatted_id ''ssp585'' = ''SSP5-8.5''
   \<and> formatted_id ''rcp8p5'' = ''RCP-8.5''
   \<and> formatted_id ''ssp1'' = ''ssp1''
   \<and> scenario_option \<lparr>scen_id = ''ssp585'', scen_years = PList [PInt 2030]\<rparr> ''label''
       = Some (PStr ''SSP5-8.5'')"
  using scenario_label_cases [of "''ssp585''" "PList [PInt 2030]"]
    scenario_label_cases [of "''rcp8p5''" "PList []"]
    scenario_label_cases [of "''ssp1''" "PList []"]
  by simp


section \<open>Evaluating the model\<close>

text \<open>
  Two indicator records are equal exactly when their three fields are: the fact that
  lets the simplifier decide \<^verbatim>\<open>item not in unique\<close> on concrete records.
\<close>

lemma indicator_record_eq:
  "([''label'' \<mapsto> a, ''value'' \<mapsto> b, ''path'' \<mapsto> c] =
    [''label'' \<mapsto> a', ''value'' \<mapsto> b', ''path'' \<mapsto> c'])
   = (a = a' \<and> b = b' \<and> c = c')"
  by (auto dest: fun_cong [where x = "''label''"] fun_cong [where x = "''value''"]
        fun_cong [where x = "''path''"])

lemmas format_defs =
  str_format_def format_map_custom_def kwargs_lookup_def custom_lookup_def
  field_value_def is_digit_def replace_def startswith_def

lemmas extractor_defs =
  get_menu_items_from_file_def get_indicator_options_def get_hazard_types_def
  get_climate_model_options_def get_scenario_options_def scenario_option_def
  dedupe_dict_def itertools_product_def dict_zip_def indicator_option_def
  hazard_label_def is_upper_def formatted_id_def Let_def

lemmas merger_defs =
  create_menu_options_def merge_document_def merge_item_def iadd_def

section \<open>The climate model options are not deduplicated\<close>

text \<open>
  Claim C7. \<^verbatim>\<open>get_hazard_types\<close>, \<^verbatim>\<open>get_scenario_options\<close> and
  \<^verbatim>\<open>get_indicator_options\<close> return \<^verbatim>\<open>dedupe_dict(...)\<close>; \<^verbatim>\<open>get_climate_model_options\<close>
  returns its list as built. For a document whose \<^verbatim>\<open>gcm\<close> list is \<^verbatim>\<open>["A", "A"]\<close> the
  climate model options returned by \<^verbatim>\<open>get_menu_items_from_file\<close> hold the same record
  twice.
\<close>

theorem climate_model_options_duplicate:
  "get_menu_items_from_file
     \<lparr>hazard_type = ''ChronicHeat'', params = [(''gcm'', [''A'', ''A''])],
      scenarios = [\<lparr>scen_id = ''ssp126'', scen_years = PList [PInt 2030]\<rparr>],
      display_name = ''Heat {gcm}'', indicator_id = ''heat_{gcm}'', path = ''heat/{gcm}'',
      indicator_model_id = [], indicator_model_gcm = ''unknown''\<rparr>
   = Inr ([[''label'' \<mapsto> PStr ''Heat A'', ''value'' \<mapsto> PStr ''heat_A'', ''path'' \<mapsto> PStr ''heat/A'']],
          [[''value'' \<mapsto> PStr ''A'', ''label'' \<mapsto> PStr ''CMIP6: A''],
           [''value'' \<mapsto> PStr ''A'', ''label'' \<mapsto> PStr ''CMIP6: A'']],
          [[''label'' \<mapsto> PStr ''SSP1-2.6'', ''value'' \<mapsto> PStr ''ssp126'',
            ''year_options'' \<mapsto> PList [PInt 2030]]],
          [[''label'' \<mapsto> PStr ''Chronic Heat'', ''value'' \<mapsto> PStr ''ChronicHeat'']])
   \<and> \<not> distinct (get_climate_model_options [(''gcm'', [''A'', ''A''])])"
  by (simp add: extractor_defs format_defs)

section \<open>Link arrays with repeated values\<close>

text \<open>
  Claim C4. The filter \<^verbatim>\<open>if option["value"] not in main_item[options_name]\<close> keeps a
  value that is already in the link array out of it, but a new record takes every
  value of the source list, and two records of one source list can carry the same
  value. In the document below the parameter \<^verbatim>\<open>gcm\<close> does not occur in
  \<^verbatim>\<open>indicator_id\<close>, so its two indicator records differ in \<^verbatim>\<open>path\<close> only, and the
  \<^verbatim>\<open>indicator_options\<close> of the hazard type holds their common value twice after the
  first merge step.
\<close>

theorem link_array_repeated_value:
  "map_sum id (\<lambda>menu. map (\<lambda>r. r ''indicator_options'') (hazardTypes menu))
     (create_menu_options
        [\<lparr>hazard_type = ''ChronicHeat'', params = [(''gcm'', [''A'', ''B''])],
          scenarios = [\<lparr>scen_id = ''ssp126'', scen_years = PList [PInt 2030]\<rparr>],
          display_name = ''Days above ({gcm})'', indicator_id = ''days/above'',
          path = ''days_{gcm}_{scenario}_{year}'',
          indicator_model_id = [], indicator_model_gcm = ''unknown''\<rparr>])
   = Inr [Some (PList [PStr ''days_above'', PStr ''days_above''])]"
  by (simp add: merger_defs extractor_defs format_defs indicator_record_eq)

section \<open>A merge that fails on a missing link array\<close>

lemma find_and_extend_no_match:
  assumes "\<forall>r \<in> set main_list. \<exists>l'. r ''label'' = Some l' \<and> l' \<noteq> l"
    and "single_item ''label'' = Some l"
  shows "find_and_extend single_item main_list options_dicts = Inr None"
  using assms by (induction main_list) auto

lemma find_and_extend_first_match:
  assumes "\<forall>r \<in> set before. \<exists>l'. r ''label'' = Some l' \<and> l' \<noteq> l"
    and "single_item ''label'' = Some l"
    and "main_item ''label'' = Some l"
  shows "find_and_extend single_item (before @ main_item # rest) options_dicts =
           (case extend_links main_item options_dicts of
              Inl e \<Rightarrow> Inl e
            | Inr updated \<Rightarrow> Inr (Some (before @ updated # rest)))"
  using assms by (induction before) (auto split: sum.splits)

text \<open>
  Claim C10. A record \<open>first\<close> without the link array \<open>name\<close> that matches no record of
  the main list is appended as it is when the source list of \<open>name\<close> is empty: the
  array is not created. A later record with the same label and a source list that is
  not empty finds \<open>first\<close> and reads the missing array: \<^verbatim>\<open>update_options\<close> raises
  \<^verbatim>\<open>KeyError\<close>. This happens in \<^verbatim>\<open>create_menu_options\<close> for an indicator seen first in a
  document without a \<^verbatim>\<open>gcm\<close> parameter and again in a document with one.
\<close>

theorem update_options_missing_link_array:
  "((\<forall>r \<in> set main_list. \<exists>l'. r ''label'' = Some l' \<and> l' \<noteq> l)
      \<and> first ''label'' = Some l \<and> first name = None
      \<and> later ''label'' = Some l \<and> source \<noteq> []
    \<longrightarrow> update_options [first] main_list [(name, [])] = Inr (main_list @ [first])
        \<and> update_options [later] (main_list @ [first]) [(name, source)] = Inl (KeyError name))
   \<and> create_menu_options
       [\<lparr>hazard_type = ''ChronicHeat'', params = [],
         scenarios = [\<lparr>scen_id = ''ssp126'', scen_years = PList [PInt 2030]\<rparr>],
         display_name = ''Heat'', indicator_id = ''heat'', path = ''heat_{scenario}_{year}'',
         indicator_model_id = [], indicator_model_gcm = ''unknown''\<rparr>,
        \<lparr>hazard_type = ''ChronicHeat'', params = [(''gcm'', [''A''])],
         scenarios = [\<lparr>scen_id = ''ssp126'', scen_years = PList [PInt 2050]\<rparr>],
         display_name = ''Heat'', indicator_id = ''heat'', path = ''heat_{scenario}_{year}'',
         indicator_model_id = [], indicator_model_gcm = ''unknown''\<rparr>]
     = Inl (KeyError ''climate_model_options'')"
proof -
  have general: "update_options [first] main_list [(name, [])] = Inr (main_list @ [first])
        \<and> update_options [later] (main_list @ [first]) [(name, source)] = Inl (KeyError name)"
    if no_match: "\<forall>r \<in> set main_list. \<exists>l'. r ''label'' = Some l' \<and> l' \<noteq> l"
      and first: "first ''label'' = Some l" "first name = None"
      and later: "later ''label'' = Some l" "source \<noteq> []"
  proof
    show "update_options [first] main_list [(name, [])] = Inr (main_list @ [first])"
      using find_and_extend_no_match [of main_list l first "[(name, [])]"] no_match first(1)
      by (simp add: merge_item_def)
    have "find_and_extend later (main_list @ first # []) [(name, source)] = Inl (KeyError name)"
      using find_and_extend_first_match [where before = main_list and l = l and single_item = later
          and main_item = first and rest = "[]" and options_dicts = "[(name, source)]"]
        no_match first later
      by simp
    then show "update_options [later] (main_list @ [first]) [(name, source)] = Inl (KeyError name)"
      by (simp add: merge_item_def)
  qed
  have run: "create_menu_options
       [\<lparr>hazard_type = ''ChronicHeat'', params = [],
         scenarios = [\<lparr>scen_id = ''ssp126'', scen_years = PList [PInt 2030]\<rparr>],
         display_name = ''Heat'', indicator_id = ''heat'', path = ''heat_{scenario}_{year}'',
         indicator_model_id = [], indicator_model_gcm = ''unknown''\<rparr>,
        \<lparr>hazard_type = ''ChronicHeat'', params = [(''gcm'', [''A''])],
         scenarios = [\<lparr>scen_id = ''ssp126'', scen_years = PList [PInt 2050]\<rparr>],
         display_name = ''Heat'', indicator_id = ''heat'', path = ''heat_{scenario}_{year}'',
         indicator_model_id = [], indicator_model_gcm = ''unknown''\<rparr>]
     = Inl (KeyError ''climate_model_options'')"
    by (simp add: merger_defs extractor_defs format_defs)
  from general run show ?thesis by blast
qed

theorem update_options_missing_link_array_witness:
  "update_options [[''label'' \<mapsto> PStr ''Heat'', ''value'' \<mapsto> PStr ''heat'']]
     [[''label'' \<mapsto> PStr ''Cold'', ''value'' \<mapsto> PStr ''cold'']]
     [(''climate_model_options'', [])]
   = Inr [[''label'' \<mapsto> PStr ''Cold'', ''value'' \<mapsto> PStr ''cold''],
          [''label'' \<mapsto> PStr ''Heat'', ''value'' \<mapsto> PStr ''heat'']]
   \<and> update_options [[''label'' \<mapsto> PStr ''Heat'', ''value'' \<mapsto> PStr ''heat2'']]
     ([[''label'' \<mapsto> PStr ''Cold'', ''value'' \<mapsto> PStr ''cold'']]
      @ [[''label'' \<mapsto> PStr ''Heat'', ''value'' \<mapsto> PStr ''heat'']])
     [(''climate_model_options'', [[''value'' \<mapsto> PStr ''A'', ''label'' \<mapsto> PStr ''CMIP6: A'']])]
   = Inl (KeyError ''climate_model_options'')"
  using update_options_missing_link_array
    [of "[[''label'' \<mapsto> PStr ''Cold'', ''value'' \<mapsto> PStr ''cold'']]" "PStr ''Heat''"
        "[''label'' \<mapsto> PStr ''Heat'', ''value'' \<mapsto> PStr ''heat'']"
        "''climate_model_options''"
        "[''label'' \<mapsto> PStr ''Heat'', ''value'' \<mapsto> PStr ''heat2'']"
        "[[''value'' \<mapsto> PStr ''A'', ''label'' \<mapsto> PStr ''CMIP6: A'']]"]
  by simp


section \<open>Properties of the format functions\<close>

lemma parse_field_append:
  "parse_field s = Inr (name, rest) \<Longrightarrow> parse_field (s @ t) = Inr (name, rest @ t)"
  by (induction s arbitrary: name) (auto split: if_splits sum.splits)

text \<open>
  Formatting is compositional from the left: a template that formats without error
  formats in the same way as the prefix of a longer one.
\<close>

lemma vformat_append:
  "vformat lookup positional pre = Inr pre' \<Longrightarrow>
   vformat lookup positional (pre @ s) =
     (case vformat lookup positional s of Inl e \<Rightarrow> Inl e | Inr out \<Rightarrow> Inr (pre' @ out))"
proof (induction lookup positional pre arbitrary: pre' rule: vformat.induct)
  case (1 lookup positional)
  then show ?case by (simp split: sum.splits)
next
  case (2 lookup positional c cs)
  note prems = "2.prems"
  consider (esc_open) ds where "c = CHR ''{''" "cs = CHR ''{'' # ds"
    | (field) d ds where "c = CHR ''{''" "cs = d # ds" "d \<noteq> CHR ''{''"
    | (esc_close) ds where "c = CHR ''}''" "cs = CHR ''}'' # ds"
    | (plain) "c \<noteq> CHR ''{''" "c \<noteq> CHR ''}''"
    using prems by (cases cs) (auto split: if_splits)
  then show ?case
  proof cases
    case esc_open
    with prems obtain out where out: "vformat lookup positional ds = Inr out" "pre' = CHR ''{'' # out"
      by (auto split: sum.splits)
    from "2.IH"(1) [of "CHR ''{''" ds out] esc_open out show ?thesis
      by (simp split: sum.splits)
  next
    case field
    with prems obtain name rest v out where
      pf: "parse_field cs = Inr (name, rest)"
      and fv: "field_value lookup positional name = Inr v"
      and out: "vformat lookup positional rest = Inr out" "pre' = v @ out"
      by (auto split: sum.splits simp del: parse_field.simps)
    from parse_field_append [OF pf] have pf': "parse_field (cs @ s) = Inr (name, rest @ s)" .
    from "2.IH"(2) [of d ds "(name, rest)" name rest v out] field pf fv out
    have "vformat lookup positional (rest @ s) =
        (case vformat lookup positional s of Inl e \<Rightarrow> Inl e | Inr out' \<Rightarrow> Inr (out @ out'))"
      by simp
    with field pf' fv out show ?thesis
      by (simp split: sum.splits del: parse_field.simps)
  next
    case esc_close
    with prems obtain out where out: "vformat lookup positional ds = Inr out" "pre' = CHR ''}'' # out"
      by (auto split: sum.splits)
    from "2.IH"(3) [of "CHR ''}''" ds out] esc_close out show ?thesis
      by (simp split: sum.splits)
  next
    case plain
    with prems obtain out where out: "vformat lookup positional cs = Inr out" "pre' = c # out"
      by (auto split: sum.splits)
    from "2.IH"(4) [of out] plain out show ?thesis
      by (simp split: sum.splits)
  qed
qed

lemma parse_field_plain:
  "list_all (\<lambda>c. c \<notin> set ''{}[:!.'') name \<Longrightarrow>
   parse_field (name @ CHR ''}'' # rest) = Inr (name, rest)"
  by (induction name) auto

lemma vformat_plain_field:
  assumes "plain_name name"
  shows "vformat lookup positional (''{'' @ name @ ''}'' @ rest) =
     (case lookup name of
        Inl e \<Rightarrow> Inl e
      | Inr v \<Rightarrow>
          (case vformat lookup positional rest of Inl e \<Rightarrow> Inl e | Inr out \<Rightarrow> Inr (v @ out)))"
proof -
  from assms obtain c cs where name: "name = c # cs" and c: "c \<noteq> CHR ''{''"
    by (cases name) (auto simp: plain_name_def)
  from assms have pf: "parse_field (name @ CHR ''}'' # rest) = Inr (name, rest)"
    by (simp add: plain_name_def parse_field_plain)
  from assms have fv: "field_value lookup positional name = lookup name"
    by (auto simp: plain_name_def field_value_def list_all_iff)
  have "vformat lookup positional (CHR ''{'' # c # (cs @ CHR ''}'' # rest)) =
      (case parse_field (c # cs @ CHR ''}'' # rest) of
         Inl e \<Rightarrow> Inl e
       | Inr (name, rest) \<Rightarrow>
           (case field_value lookup positional name of
              Inl e \<Rightarrow> Inl e
            | Inr v \<Rightarrow>
                (case vformat lookup positional rest of
                   Inl e \<Rightarrow> Inl e
                 | Inr out \<Rightarrow> Inr (v @ out))))"
    using c by (simp del: parse_field.simps)
  with pf fv name show ?thesis by simp
qed

section \<open>Properties of the Indicator Expander\<close>

lemma key_loop_path:
  "key_loop data param_dict keys locals = Inr locals' \<Longrightarrow>
   (if keys = [] then locals' = locals
    else \<exists>dn p. locals' = Some (dn, p) \<and> format_map_custom (path data) param_dict = Inr p)"
proof (induction keys arbitrary: locals)
  case Nil
  then show ?case by simp
next
  case (Cons key keys)
  from Cons.prems obtain dn p where
    p: "format_map_custom (path data) param_dict = Inr p"
    and rest: "key_loop data param_dict keys (Some (dn, p)) = Inr locals'"
    by (auto split: sum.splits)
  from Cons.IH [OF rest] p show ?case by (auto split: if_splits)
qed

lemma indicator_option_path:
  assumes "indicator_option data param_dict = Inr r"
  shows "if param_dict = [] then r ''path'' = Some (PStr (path data))
         else \<exists>p. format_map_custom (path data) param_dict = Inr p \<and> r ''path'' = Some (PStr p)"
proof -
  from assms obtain dn p where
    loop: "key_loop data param_dict (map fst param_dict)
             (if param_dict = [] then Some (display_name data, path data) else None)
           = Inr (Some (dn, p))"
    and r: "r ''path'' = Some (PStr p)"
    by (auto simp: indicator_option_def Let_def split: sum.splits option.splits)
  from key_loop_path [OF loop] r show ?thesis
    by (cases "param_dict = []") auto
qed

text \<open>
  Claim C2, as stated, covers \<^verbatim>\<open>display_name\<close> and \<^verbatim>\<open>indicator_id\<close>. Both are formatted
  with \<^verbatim>\<open>format(**param_dict)\<close>, where a name that is not a key of the combination
  raises \<^verbatim>\<open>KeyError\<close>: with the one parameter \<^verbatim>\<open>gcm\<close>, a placeholder \<^verbatim>\<open>{scenario}\<close> in
  either template makes the whole expansion fail.
\<close>

theorem unresolved_placeholder_counterexample:
  "get_indicator_options
     \<lparr>hazard_type = ''ChronicHeat'', params = [(''gcm'', [''A''])],
      scenarios = [\<lparr>scen_id = ''ssp126'', scen_years = PList [PInt 2030]\<rparr>],
      display_name = ''Heat {gcm} {scenario}'', indicator_id = ''heat_{gcm}'',
      path = ''heat_{gcm}'', indicator_model_id = [], indicator_model_gcm = ''unknown''\<rparr>
   = Inl (KeyError ''scenario'')
   \<and> get_indicator_options
     \<lparr>hazard_type = ''ChronicHeat'', params = [(''gcm'', [''A''])],
      scenarios = [\<lparr>scen_id = ''ssp126'', scen_years = PList [PInt 2030]\<rparr>],
      display_name = ''Heat {gcm}'', indicator_id = ''heat_{gcm}_{scenario}'',
      path = ''heat_{gcm}'', indicator_model_id = [], indicator_model_gcm = ''unknown''\<rparr>
   = Inl (KeyError ''scenario'')"
  by (simp add: extractor_defs format_defs)

text \<open>
  Claim C2, amended to the \<^verbatim>\<open>path\<close> template, which is formatted with
  \<^verbatim>\<open>format_map(CustomDict(**param_dict))\<close>. Let the template be \<open>pre\<close>, a placeholder
  \<^verbatim>\<open>{name}\<close> whose name is not a key of the combination, and \<open>post\<close>, where \<open>pre\<close> and
  \<open>post\<close> format without error on their own. Then the template formats without
  error and the placeholder stands verbatim between the formatted parts; this is the
  \<^verbatim>\<open>path\<close> field of the record of a combination that is not empty. For the empty
  combination the field is the template itself, placeholder included.
\<close>

theorem path_placeholder_verbatim:
  assumes "path data = pre @ ''{'' @ name @ ''}'' @ post"
    and "plain_name name"
    and "map_of param_dict name = None"
    and "format_map_custom pre param_dict = Inr pre'"
    and "format_map_custom post param_dict = Inr post'"
  shows "format_map_custom (path data) param_dict = Inr (pre' @ ''{'' @ name @ ''}'' @ post')
    \<and> (\<forall>r. indicator_option data param_dict = Inr r \<longrightarrow>
          r ''path'' = Some (PStr (if param_dict = [] then pre @ ''{'' @ name @ ''}'' @ post
                                   else pre' @ ''{'' @ name @ ''}'' @ post')))"
proof -
  have field: "vformat (custom_lookup param_dict) ValueError (''{'' @ name @ ''}'' @ post)
               = Inr ((''{'' @ name @ ''}'') @ post')"
    using assms(3,5) vformat_plain_field [OF assms(2), of "custom_lookup param_dict" ValueError post]
    by (simp add: format_map_custom_def custom_lookup_def)
  have whole: "format_map_custom (path data) param_dict = Inr (pre' @ ''{'' @ name @ ''}'' @ post')"
    using vformat_append [of "custom_lookup param_dict" ValueError pre pre'
        "''{'' @ name @ ''}'' @ post"] assms(1,4) field
    by (simp add: format_map_custom_def)
  have "r ''path'' = Some (PStr (if param_dict = [] then pre @ ''{'' @ name @ ''}'' @ post
                                   else pre' @ ''{'' @ name @ ''}'' @ post'))"
    if "indicator_option data param_dict = Inr r" for r
    using indicator_option_path [OF that] whole assms(1)
    by (auto split: if_splits)
  with whole show ?thesis by blast
qed

theorem path_placeholder_verbatim_witness:
  "format_map_custom ''heat/{gcm}/{scenario}_{year}'' [(''gcm'', ''A'')]
     = Inr ''heat/A/{scenario}_{year}''
   \<and> map_sum id (\<lambda>r. r ''path'')
       (indicator_option
          \<lparr>hazard_type = ''ChronicHeat'', params = [(''gcm'', [''A''])],
           scenarios = [], display_name = ''Heat {gcm}'', indicator_id = ''heat_{gcm}'',
           path = ''heat/{gcm}/{scenario}_{year}'',
           indicator_model_id = [], indicator_model_gcm = ''unknown''\<rparr>
          [(''gcm'', ''A'')])
     = Inr (Some (PStr ''heat/A/{scenario}_{year}''))"
proof -
  let ?data = "\<lparr>hazard_type = ''ChronicHeat'', params = [(''gcm'', [''A''])],
           scenarios = [], display_name = ''Heat {gcm}'', indicator_id = ''heat_{gcm}'',
           path = ''heat/{gcm}/{scenario}_{year}'',
           indicator_model_id = [], indicator_model_gcm = ''unknown''\<rparr>"
  have 1: "path ?data = ''heat/{gcm}/'' @ ''{'' @ ''scenario'' @ ''}'' @ ''_{year}''"
    by simp
  have 2: "plain_name ''scenario''"
    by (simp add: plain_name_def is_digit_def)
  have 3: "map_of [(''gcm'', ''A'')] ''scenario'' = None"
    by simp
  have 4: "format_map_custom ''heat/{gcm}/'' [(''gcm'', ''A'')] = Inr ''heat/A/''"
    by (simp add: format_defs)
  have 5: "format_map_custom ''_{year}'' [(''gcm'', ''A'')] = Inr ''_{year}''"
    by (simp add: format_defs)
  have 6: "indicator_option ?data [(''gcm'', ''A'')]
           = Inr [''label'' \<mapsto> PStr ''Heat A'', ''value'' \<mapsto> PStr ''heat_A'',
                  ''path'' \<mapsto> PStr ''heat/A/{scenario}_{year}'']"
    by (simp add: extractor_defs format_defs)
  from path_placeholder_verbatim [OF 1 2 3 4 5] 6 show ?thesis
    by simp
qed


section \<open>The combinations and their records\<close>

lemma product_step:
  "concat (map (\<lambda>x. map ((@) x) zss) (concat (map (\<lambda>x. map (\<lambda>y. x @ [y]) p) acc)))
   = concat (map (\<lambda>x. map ((@) x) (concat (map (\<lambda>y. map (Cons y) zss) p))) acc)"
proof (induction acc)
  case Nil
  show ?case by simp
next
  case (Cons a acc)
  have "concat (map (\<lambda>x. map ((@) x) zss) (map (\<lambda>y. a @ [y]) p))
        = map ((@) a) (concat (map (\<lambda>y. map (Cons y) zss) p))"
    by (induction p) simp_all
  with Cons show ?case by simp
qed

lemma foldl_product:
  "foldl (\<lambda>result pool. concat (map (\<lambda>x. map (\<lambda>y. x @ [y]) pool) result)) acc pools
   = concat (map (\<lambda>x. map ((@) x) (product_lists pools)) acc)"
proof (induction pools arbitrary: acc)
  case Nil
  show ?case by (induction acc) simp_all
next
  case (Cons p pools)
  show ?case by (simp add: Cons.IH product_step)
qed

text \<open>
  \<^verbatim>\<open>itertools.product\<close> lists the combinations in row-major order, the last pool
  varying fastest: it is \<open>product_lists\<close> of the HOL library.
\<close>

lemma itertools_product_row_major: "itertools_product pools = product_lists pools"
proof -
  have "map ((@) []) (product_lists pools) = product_lists pools"
    by (induction "product_lists pools") simp_all
  then show ?thesis by (simp add: itertools_product_def foldl_product)
qed

lemma length_product_lists: "length (product_lists xss) = prod_list (map length xss)"
  by (induction xss) (simp_all add: length_concat comp_def sum_list_triv)

lemma indicator_loop_all2:
  "indicator_loop data combos = Inr recs \<Longrightarrow>
   list_all2 (\<lambda>vals r. indicator_option data (dict_zip (map fst (params data)) vals) = Inr r)
     combos recs"
  by (induction combos arbitrary: recs) (auto split: sum.splits)

lemma indicator_option_empty:
  "indicator_option data [] = Inr r \<Longrightarrow>
   r ''label'' = Some (PStr (display_name data)) \<and> r ''path'' = Some (PStr (path data))"
  by (auto simp: indicator_option_def Let_def split: sum.splits)

lemma get_indicator_options_records:
  assumes "get_indicator_options data = Inr rs"
  obtains recs where
    "list_all2 (\<lambda>vals r. indicator_option data (dict_zip (map fst (params data)) vals) = Inr r)
       (product_lists (map snd (params data))) recs"
    and "rs = dedupe_dict recs"
proof -
  from assms obtain recs where
    loop: "indicator_loop data (itertools_product (map snd (params data))) = Inr recs"
    and rs: "rs = dedupe_dict recs"
    by (auto simp: get_indicator_options_def split: sum.splits)
  from indicator_loop_all2 [OF loop] rs that show thesis
    by (simp add: itertools_product_row_major)
qed

text \<open>
  Claim C6, as stated, promises one record per combination for every document. The
  result is passed through \<^verbatim>\<open>dedupe_dict\<close>: when no template mentions a parameter, its
  values give equal records and only the first is kept. Here two combinations give
  one record.
\<close>

theorem indicator_expansion_counterexample:
  "itertools_product [[''A'', ''B'']] = [[''A''], [''B'']]
   \<and> get_indicator_options
      \<lparr>hazard_type = ''ChronicHeat'', params = [(''gcm'', [''A'', ''B''])],
       scenarios = [\<lparr>scen_id = ''ssp126'', scen_years = PList [PInt 2030]\<rparr>],
       display_name = ''Days above ({gcm})'', indicator_id = ''days/above'',
       path = ''days_{scenario}_{year}'',
       indicator_model_id = [], indicator_model_gcm = ''unknown''\<rparr>
     = Inr [[''label'' \<mapsto> PStr ''Days above ()'', ''value'' \<mapsto> PStr ''days_above'',
             ''path'' \<mapsto> PStr ''days_{scenario}_{year}'']]"
  by (simp add: extractor_defs format_defs)

text \<open>
  Claim C6, amended. When \<^verbatim>\<open>get_indicator_options\<close> returns, its result is the
  deduplication of the list \<open>recs\<close> that holds one record per combination of the
  cross-product of the \<^verbatim>\<open>params\<close> value lists, in row-major order (last parameter
  varying fastest); there are as many combinations as the product of the lengths of
  the value lists. So the result is \<open>recs\<close> itself, one record per combination, when
  the records of the combinations are pairwise different. With empty \<^verbatim>\<open>params\<close> the
  result is exactly one record, with the unmodified \<^verbatim>\<open>display_name\<close> and \<^verbatim>\<open>path\<close>
  templates. For \<^verbatim>\<open>params = {"gcm": ["A", "B"], "rcp": ["45", "85"]}\<close> the list \<open>recs\<close>
  holds the records of the four pairs (A, 45), (A, 85), (B, 45), (B, 85) in this order.
\<close>

theorem indicator_expansion:
  assumes "get_indicator_options data = Inr rs"
  shows "\<exists>recs.
      list_all2 (\<lambda>vals r. indicator_option data (dict_zip (map fst (params data)) vals) = Inr r)
        (product_lists (map snd (params data))) recs
    \<and> itertools_product (map snd (params data)) = product_lists (map snd (params data))
    \<and> length recs = prod_list (map (\<lambda>p. length (snd p)) (params data))
    \<and> rs = dedupe_dict recs
    \<and> (distinct recs \<longrightarrow> rs = recs)
    \<and> (params data = [] \<longrightarrow>
         rs = recs \<and> length rs = 1
         \<and> hd rs ''label'' = Some (PStr (display_name data))
         \<and> hd rs ''path'' = Some (PStr (path data)))
    \<and> (params data = [(''gcm'', [''A'', ''B'']), (''rcp'', [''45'', ''85''])] \<longrightarrow>
         length recs = 4
         \<and> indicator_option data [(''gcm'', ''A''), (''rcp'', ''45'')] = Inr (recs ! 0)
         \<and> indicator_option data [(''gcm'', ''A''), (''rcp'', ''85'')] = Inr (recs ! 1)
         \<and> indicator_option data [(''gcm'', ''B''), (''rcp'', ''45'')] = Inr (recs ! 2)
         \<and> indicator_option data [(''gcm'', ''B''), (''rcp'', ''85'')] = Inr (recs ! 3))"
proof -
  let ?rec = "\<lambda>vals r. indicator_option data (dict_zip (map fst (params data)) vals) = Inr r"
  from get_indicator_options_records [OF assms] obtain recs where
    all2: "list_all2 ?rec (product_lists (map snd (params data))) recs"
    and rs: "rs = dedupe_dict recs"
    by blast
  have len: "length recs = prod_list (map (\<lambda>p. length (snd p)) (params data))"
    using list_all2_lengthD [OF all2] by (simp add: length_product_lists comp_def)
  have dist: "rs = recs" if "distinct recs"
    using that rs by (simp add: dedupe_dict_distinct_id)
  have empty: "rs = recs \<and> length rs = 1
         \<and> hd rs ''label'' = Some (PStr (display_name data))
         \<and> hd rs ''path'' = Some (PStr (path data))"
    if "params data = []"
  proof -
    from all2 that obtain r where r: "recs = [r]" "indicator_option data [] = Inr r"
      by (auto simp: list_all2_Cons1 dict_zip_def)
    with rs indicator_option_empty [OF r(2)] show ?thesis
      by (simp add: dedupe_dict_def)
  qed
  have four: "length recs = 4
         \<and> indicator_option data [(''gcm'', ''A''), (''rcp'', ''45'')] = Inr (recs ! 0)
         \<and> indicator_option data [(''gcm'', ''A''), (''rcp'', ''85'')] = Inr (recs ! 1)
         \<and> indicator_option data [(''gcm'', ''B''), (''rcp'', ''45'')] = Inr (recs ! 2)
         \<and> indicator_option data [(''gcm'', ''B''), (''rcp'', ''85'')] = Inr (recs ! 3)"
    if "params data = [(''gcm'', [''A'', ''B'']), (''rcp'', [''45'', ''85''])]"
    using all2 that by (auto simp: list_all2_Cons1 dict_zip_def)
  from all2 len rs dist empty four itertools_product_row_major show ?thesis
    by blast
qed

theorem indicator_expansion_witness:
  "get_indicator_options
     \<lparr>hazard_type = ''ChronicHeat'',
      params = [(''gcm'', [''A'', ''B'']), (''rcp'', [''45'', ''85''])],
      scenarios = [], display_name = ''Heat {gcm} {rcp}'', indicator_id = ''heat/{gcm}/{rcp}'',
      path = ''heat_{gcm}_{rcp}_{year}'',
      indicator_model_id = [], indicator_model_gcm = ''unknown''\<rparr>
   = Inr [[''label'' \<mapsto> PStr ''Heat A 45'', ''value'' \<mapsto> PStr ''heat_A_45'',
           ''path'' \<mapsto> PStr ''heat_A_45_{year}''],
          [''label'' \<mapsto> PStr ''Heat A 85'', ''value'' \<mapsto> PStr ''heat_A_85'',
           ''path'' \<mapsto> PStr ''heat_A_85_{year}''],
          [''label'' \<mapsto> PStr ''Heat B 45'', ''value'' \<mapsto> PStr ''heat_B_45'',
           ''path'' \<mapsto> PStr ''heat_B_45_{year}''],
          [''label'' \<mapsto> PStr ''Heat B 85'', ''value'' \<mapsto> PStr ''heat_B_85'',
           ''path'' \<mapsto> PStr ''heat_B_85_{year}'']]
   \<and> (\<exists>recs. length recs = 4
        \<and> [[''label'' \<mapsto> PStr ''Heat A 45'', ''value'' \<mapsto> PStr ''heat_A_45'',
           ''path'' \<mapsto> PStr ''heat_A_45_{year}''],
          [''label'' \<mapsto> PStr ''Heat A 85'', ''value'' \<mapsto> PStr ''heat_A_85'',
           ''path'' \<mapsto> PStr ''heat_A_85_{year}''],
          [''label'' \<mapsto> PStr ''Heat B 45'', ''value'' \<mapsto> PStr ''heat_B_45'',
           ''path'' \<mapsto> PStr ''heat_B_45_{year}''],
          [''label'' \<mapsto> PStr ''Heat B 85'', ''value'' \<mapsto> PStr ''heat_B_85'',
           ''path'' \<mapsto> PStr ''heat_B_85_{year}'']] = dedupe_dict recs)"
proof -
  let ?data = "\<lparr>hazard_type = ''ChronicHeat'',
      params = [(''gcm'', [''A'', ''B'']), (''rcp'', [''45'', ''85''])],
      scenarios = [], display_name = ''Heat {gcm} {rcp}'', indicator_id = ''heat/{gcm}/{rcp}'',
      path = ''heat_{gcm}_{rcp}_{year}'',
      indicator_model_id = [], indicator_model_gcm = ''unknown''\<rparr>"
  let ?rs = "[[''label'' \<mapsto> PStr ''Heat A 45'', ''value'' \<mapsto> PStr ''heat_A_45'',
           ''path'' \<mapsto> PStr ''heat_A_45_{year}''],
          [''label'' \<mapsto> PStr ''Heat A 85'', ''value'' \<mapsto> PStr ''heat_A_85'',
           ''path'' \<mapsto> PStr ''heat_A_85_{year}''],
          [''label'' \<mapsto> PStr ''Heat B 45'', ''value'' \<mapsto> PStr ''heat_B_45'',
           ''path'' \<mapsto> PStr ''heat_B_45_{year}''],
          [''label'' \<mapsto> PStr ''Heat B 85'', ''value'' \<mapsto> PStr ''heat_B_85'',
           ''path'' \<mapsto> PStr ''heat_B_85_{year}'']]"
  have run: "get_indicator_options ?data = Inr ?rs"
    by (simp add: extractor_defs format_defs indicator_record_eq)
  from indicator_expansion [OF run] obtain recs where
    "length recs = prod_list (map (\<lambda>p. length (snd p)) (params ?data))"
    and "?rs = dedupe_dict recs"
    by blast
  then have "length recs = 4 \<and> ?rs = dedupe_dict recs"
    by simp
  with run show ?thesis by blast
qed


section \<open>The identifier of an indicator\<close>

lemma indicator_option_value:
  assumes "indicator_option data param_dict = Inr r"
  shows "\<exists>s. str_format (replace ''/'' ''_'' (indicator_id data)) param_dict = Inr s
    \<and> r ''value'' = Some (PStr
         (s @ (if indicator_model_id data \<noteq> []
               then ''_'' @ replace ''/'' ''_'' (indicator_model_id data) else [])
            @ (if indicator_model_gcm data \<noteq> ''unknown'' \<and> indicator_model_gcm data \<noteq> ''{gcm}''
               then ''_'' @ indicator_model_gcm data else [])))"
  using assms
  by (auto simp: indicator_option_def Let_def split: sum.splits option.splits)

text \<open>
  Claim C3, as stated, formats the \<^verbatim>\<open>indicator_id\<close> template first and replaces \<^verbatim>\<open>/\<close>
  in the result. The source replaces \<^verbatim>\<open>/\<close> in the template and formats afterwards, so
  a \<^verbatim>\<open>/\<close> that comes in with a parameter value stays: for the value \<^verbatim>\<open>A/B\<close> of \<^verbatim>\<open>gcm\<close>
  the record has \<^verbatim>\<open>heat_A/B\<close> where the claim says \<^verbatim>\<open>heat_A_B\<close>.
\<close>

theorem indicator_value_counterexample:
  "get_indicator_options
     \<lparr>hazard_type = ''ChronicHeat'', params = [(''gcm'', [''A/B''])],
      scenarios = [], display_name = ''Heat {gcm}'', indicator_id = ''heat/{gcm}'',
      path = ''heat_{gcm}'', indicator_model_id = [], indicator_model_gcm = ''unknown''\<rparr>
   = Inr [[''label'' \<mapsto> PStr ''Heat A/B'', ''value'' \<mapsto> PStr ''heat_A/B'',
           ''path'' \<mapsto> PStr ''heat_A/B'']]
   \<and> spec_indicator_value
     \<lparr>hazard_type = ''ChronicHeat'', params = [(''gcm'', [''A/B''])],
      scenarios = [], display_name = ''Heat {gcm}'', indicator_id = ''heat/{gcm}'',
      path = ''heat_{gcm}'', indicator_model_id = [], indicator_model_gcm = ''unknown''\<rparr>
     [(''gcm'', ''A/B'')]
   = Inr ''heat_A_B''"
  by (simp add: extractor_defs format_defs spec_indicator_value_def)

text \<open>
  Claim C3, amended. For every document and every combination whose record is
  emitted, the \<^verbatim>\<open>value\<close> of the record is: the \<^verbatim>\<open>indicator_id\<close> template with every
  \<^verbatim>\<open>/\<close> replaced by \<^verbatim>\<open>_\<close>, then formatted with the substitutions of the combination
  (a \<^verbatim>\<open>/\<close> inside a substituted value is kept); then, if \<^verbatim>\<open>indicator_model_id\<close> is not
  empty, \<^verbatim>\<open>_\<close> and \<^verbatim>\<open>indicator_model_id\<close> with its \<^verbatim>\<open>/\<close> replaced by \<^verbatim>\<open>_\<close>; then, if
  \<^verbatim>\<open>indicator_model_gcm\<close> is neither \<^verbatim>\<open>unknown\<close> nor \<^verbatim>\<open>{gcm}\<close>, \<^verbatim>\<open>_\<close> and
  \<^verbatim>\<open>indicator_model_gcm\<close>, and nothing for it otherwise. Every record that
  \<^verbatim>\<open>get_indicator_options\<close> returns is the record of a combination of the cross-product.
\<close>

theorem indicator_value:
  "(indicator_option data param_dict = Inr r \<longrightarrow>
      (\<exists>s. str_format (map (\<lambda>c. if c = CHR ''/'' then CHR ''_'' else c) (indicator_id data))
              param_dict = Inr s
        \<and> r ''value'' = Some (PStr
            (s @ (if indicator_model_id data \<noteq> []
                  then ''_'' @ map (\<lambda>c. if c = CHR ''/'' then CHR ''_'' else c) (indicator_model_id data)
                  else [])
               @ (if indicator_model_gcm data \<noteq> ''unknown'' \<and> indicator_model_gcm data \<noteq> ''{gcm}''
                  then ''_'' @ indicator_model_gcm data
                  else [])))))
   \<and> (get_indicator_options data = Inr rs \<and> r' \<in> set rs \<longrightarrow>
        (\<exists>vals \<in> set (itertools_product (map snd (params data))).
           indicator_option data (dict_zip (map fst (params data)) vals) = Inr r'))"
proof -
  have "\<exists>vals \<in> set (itertools_product (map snd (params data))).
           indicator_option data (dict_zip (map fst (params data)) vals) = Inr r'"
    if run: "get_indicator_options data = Inr rs" and r': "r' \<in> set rs"
  proof -
    from get_indicator_options_records [OF run] obtain recs where
      all2: "list_all2
               (\<lambda>vals r. indicator_option data (dict_zip (map fst (params data)) vals) = Inr r)
               (product_lists (map snd (params data))) recs"
      and rs: "rs = dedupe_dict recs"
      by blast
    from r' rs have "r' \<in> set recs"
      by (simp add: set_dedupe_dict)
    then obtain i where i: "i < length recs" "recs ! i = r'"
      by (auto simp: in_set_conv_nth)
    with all2 have
      "indicator_option data
         (dict_zip (map fst (params data)) (product_lists (map snd (params data)) ! i)) = Inr r'"
      and "i < length (product_lists (map snd (params data)))"
      by (auto simp: list_all2_conv_all_nth)
    then show ?thesis
      unfolding itertools_product_row_major by (metis nth_mem)
  qed
  with indicator_option_value [of data param_dict r, unfolded replace_char] show ?thesis
    by blast
qed

theorem indicator_value_witness:
  "indicator_option
     \<lparr>hazard_type = ''ChronicHeat'', params = [(''gcm'', [''CanESM5''])],
      scenarios = [], display_name = ''Heat {gcm}'', indicator_id = ''heat_{gcm}'',
      path = ''heat_{gcm}'', indicator_model_id = ''modelX'', indicator_model_gcm = ''CanESM5''\<rparr>
     [(''gcm'', ''CanESM5'')]
   = Inr [''label'' \<mapsto> PStr ''Heat CanESM5'', ''value'' \<mapsto> PStr ''heat_CanESM5_modelX_CanESM5'',
          ''path'' \<mapsto> PStr ''heat_CanESM5'']
   \<and> get_indicator_options
     \<lparr>hazard_type = ''ChronicHeat'', params = [(''gcm'', [''CanESM5''])],
      scenarios = [], display_name = ''Heat {gcm}'', indicator_id = ''heat_{gcm}'',
      path = ''heat_{gcm}'', indicator_model_id = ''modelX'', indicator_model_gcm = ''CanESM5''\<rparr>
   = Inr [[''label'' \<mapsto> PStr ''Heat CanESM5'', ''value'' \<mapsto> PStr ''heat_CanESM5_modelX_CanESM5'',
          ''path'' \<mapsto> PStr ''heat_CanESM5'']]
   \<and> (\<exists>s. str_format ''heat_{gcm}'' [(''gcm'', ''CanESM5'')] = Inr s
        \<and> ''heat_CanESM5_modelX_CanESM5'' = s @ ''_modelX'' @ ''_CanESM5'')
   \<and> (\<exists>vals \<in> set (itertools_product [[''CanESM5'']]).
        indicator_option
          \<lparr>hazard_type = ''ChronicHeat'', params = [(''gcm'', [''CanESM5''])],
           scenarios = [], display_name = ''Heat {gcm}'', indicator_id = ''heat_{gcm}'',
           path = ''heat_{gcm}'', indicator_model_id = ''modelX'', indicator_model_gcm = ''CanESM5''\<rparr>
          (dict_zip [''gcm''] vals)
        = Inr [''label'' \<mapsto> PStr ''Heat CanESM5'', ''value'' \<mapsto> PStr ''heat_CanESM5_modelX_CanESM5'',
               ''path'' \<mapsto> PStr ''heat_CanESM5''])"
proof -
  let ?data = "\<lparr>hazard_type = ''ChronicHeat'', params = [(''gcm'', [''CanESM5''])],
      scenarios = [], display_name = ''Heat {gcm}'', indicator_id = ''heat_{gcm}'',
      path = ''heat_{gcm}'', indicator_model_id = ''modelX'', indicator_model_gcm = ''CanESM5''\<rparr>"
  let ?r = "[''label'' \<mapsto> PStr ''Heat CanESM5'', ''value'' \<mapsto> PStr ''heat_CanESM5_modelX_CanESM5'',
          ''path'' \<mapsto> PStr ''heat_CanESM5'']"
  have one: "indicator_option ?data [(''gcm'', ''CanESM5'')] = Inr ?r"
    by (simp add: extractor_defs format_defs)
  have run: "get_indicator_options ?data = Inr [?r]"
    by (simp add: extractor_defs format_defs)
  from indicator_value [of ?data "[(''gcm'', ''CanESM5'')]" ?r "[?r]" ?r] one run
  show ?thesis by simp
qed


section \<open>Properties of the Cross-Link Merger\<close>

lemma new_values_list:
  "new_values (PList old) options_list = Inr new \<Longrightarrow>
   \<exists>vals. values_of options_list = Inr vals \<and> new = filter (\<lambda>v. v \<notin> set old) vals"
  by (induction options_list arbitrary: new) (auto split: option.splits sum.splits)

lemma iadd_list:
  "iadd current new = Inr updated \<Longrightarrow> \<exists>old. current = PList old \<and> updated = PList (old @ new)"
  by (auto simp: iadd_def split: pyval.splits)

lemma extend_links_other:
  "extend_links main_item options_dicts = Inr updated \<Longrightarrow>
   \<forall>src. (k, src) \<in> set options_dicts \<longrightarrow> src = [] \<Longrightarrow>
   updated k = main_item k"
proof (induction main_item options_dicts rule: extend_links.induct)
  case (1 main_item)
  then show ?case by simp
next
  case (2 main_item options_name options_list rest)
  show ?case
  proof (cases "options_list = []")
    case True
    with 2 show ?thesis by simp
  next
    case False
    with "2.prems"(2) have neq: "k \<noteq> options_name" by auto
    from False "2.prems"(1) obtain current new upd where
      "main_item options_name = Some current"
      "new_values current options_list = Inr new"
      "iadd current new = Inr upd"
      and rest: "extend_links (main_item(options_name \<mapsto> upd)) rest = Inr updated"
      by (auto split: option.splits sum.splits)
    from "2.IH"(1) [OF False this] "2.prems"(2) neq show ?thesis by simp
  qed
qed

lemma extend_links_field:
  "extend_links main_item options_dicts = Inr updated \<Longrightarrow>
   distinct (map fst options_dicts) \<Longrightarrow>
   (name, src) \<in> set options_dicts \<Longrightarrow> src \<noteq> [] \<Longrightarrow>
   \<exists>old vals. main_item name = Some (PList old) \<and> values_of src = Inr vals
     \<and> updated name = Some (PList (old @ filter (\<lambda>v. v \<notin> set old) vals))"
proof (induction main_item options_dicts rule: extend_links.induct)
  case (1 main_item)
  then show ?case by simp
next
  case (2 main_item options_name options_list rest)
  from "2.prems"(2) have dist: "distinct (map fst rest)"
    and fresh: "\<forall>src. (options_name, src) \<notin> set rest"
    by (auto simp: image_iff)
  show ?case
  proof (cases "options_list = []")
    case True
    with "2.prems" have "(name, src) \<in> set rest" by auto
    from "2.IH"(2) [OF _ _ dist this "2.prems"(4)] True "2.prems"(1) show ?thesis by simp
  next
    case False
    from False "2.prems"(1) obtain current new upd where
      cur: "main_item options_name = Some current"
      and new: "new_values current options_list = Inr new"
      and upd: "iadd current new = Inr upd"
      and rest: "extend_links (main_item(options_name \<mapsto> upd)) rest = Inr updated"
      by (auto split: option.splits sum.splits)
    from iadd_list [OF upd] obtain old where
      old: "current = PList old" "upd = PList (old @ new)" by blast
    from new_values_list [OF new [unfolded old(1)]] obtain vals where
      vals: "values_of options_list = Inr vals" "new = filter (\<lambda>v. v \<notin> set old) vals" by blast
    show ?thesis
    proof (cases "(name, src) = (options_name, options_list)")
      case True
      from extend_links_other [OF rest, of options_name] fresh
      have "updated options_name = Some upd" by simp
      with True cur old vals show ?thesis by simp
    next
      case False
      with "2.prems"(3) have mem: "(name, src) \<in> set rest" by auto
      with fresh have "name \<noteq> options_name" by auto
      with "2.IH"(1) [OF \<open>options_list \<noteq> []\<close> cur new upd rest dist mem "2.prems"(4)]
      show ?thesis by simp
    qed
  qed
qed

lemma init_links_other:
  "init_links single_item options_dicts = Inr item \<Longrightarrow>
   \<forall>src. (k, src) \<in> set options_dicts \<longrightarrow> src = [] \<Longrightarrow>
   item k = single_item k"
proof (induction single_item options_dicts rule: init_links.induct)
  case (1 single_item)
  then show ?case by simp
next
  case (2 single_item options_name options_list rest)
  show ?case
  proof (cases "options_list = []")
    case True
    with 2 show ?thesis by simp
  next
    case False
    with "2.prems"(2) have neq: "k \<noteq> options_name" by auto
    from False "2.prems"(1) obtain vs where
      "values_of options_list = Inr vs"
      and rest: "init_links (single_item(options_name \<mapsto> PList vs)) rest = Inr item"
      by (auto split: sum.splits)
    from "2.IH"(1) [OF False this] "2.prems"(2) neq show ?thesis by simp
  qed
qed

lemma init_links_field:
  "init_links single_item options_dicts = Inr item \<Longrightarrow>
   distinct (map fst options_dicts) \<Longrightarrow>
   (name, src) \<in> set options_dicts \<Longrightarrow> src \<noteq> [] \<Longrightarrow>
   \<exists>vals. values_of src = Inr vals \<and> item name = Some (PList vals)"
proof (induction single_item options_dicts rule: init_links.induct)
  case (1 single_item)
  then show ?case by simp
next
  case (2 single_item options_name options_list rest)
  from "2.prems"(2) have dist: "distinct (map fst rest)"
    and fresh: "\<forall>src. (options_name, src) \<notin> set rest"
    by (auto simp: image_iff)
  show ?case
  proof (cases "options_list = []")
    case True
    with "2.prems" have "(name, src) \<in> set rest" by auto
    from "2.IH"(2) [OF _ _ dist this "2.prems"(4)] True "2.prems"(1) show ?thesis by simp
  next
    case False
    from False "2.prems"(1) obtain vs where
      vs: "values_of options_list = Inr vs"
      and rest: "init_links (single_item(options_name \<mapsto> PList vs)) rest = Inr item"
      by (auto split: sum.splits)
    show ?thesis
    proof (cases "(name, src) = (options_name, options_list)")
      case True
      from init_links_other [OF rest, of options_name] fresh
      have "item options_name = Some (PList vs)" by simp
      with True vs show ?thesis by simp
    next
      case False
      with "2.prems"(3) have mem: "(name, src) \<in> set rest" by auto
      from "2.IH"(1) [OF \<open>options_list \<noteq> []\<close> vs rest dist mem "2.prems"(4)]
      show ?thesis .
    qed
  qed
qed

lemma find_and_extend_Some:
  "find_and_extend single_item main_list options_dicts = Inr (Some main_list') \<Longrightarrow>
   \<exists>before main_item rest updated.
      main_list = before @ main_item # rest
    \<and> main_list' = before @ updated # rest
    \<and> main_item ''label'' = single_item ''label''
    \<and> (\<forall>r \<in> set before. r ''label'' \<noteq> single_item ''label'')
    \<and> extend_links main_item options_dicts = Inr updated"
proof (induction main_list arbitrary: main_list')
  case Nil
  then show ?case by simp
next
  case (Cons m ms)
  from Cons.prems obtain l l' where l: "m ''label'' = Some l" "single_item ''label'' = Some l'"
    by (auto split: option.splits)
  show ?case
  proof (cases "l = l'")
    case True
    with Cons.prems l obtain updated where
      "extend_links m options_dicts = Inr updated" "main_list' = updated # ms"
      by (auto split: sum.splits)
    with True l have "m # ms = [] @ m # ms \<and> main_list' = [] @ updated # ms
        \<and> m ''label'' = single_item ''label''
        \<and> (\<forall>r \<in> set []. r ''label'' \<noteq> single_item ''label'')
        \<and> extend_links m options_dicts = Inr updated"
      by simp
    then show ?thesis by blast
  next
    case False
    with Cons.prems l obtain rest' where
      rec: "find_and_extend single_item ms options_dicts = Inr (Some rest')"
      and res: "main_list' = m # rest'"
      by (auto split: sum.splits option.splits)
    from Cons.IH [OF rec] obtain before main_item rest updated where
      *: "ms = before @ main_item # rest" "rest' = before @ updated # rest"
         "main_item ''label'' = single_item ''label''"
         "\<forall>r \<in> set before. r ''label'' \<noteq> single_item ''label''"
         "extend_links main_item options_dicts = Inr updated"
      by blast
    with False l res have "m # ms = (m # before) @ main_item # rest
        \<and> main_list' = (m # before) @ updated # rest
        \<and> main_item ''label'' = single_item ''label''
        \<and> (\<forall>r \<in> set (m # before). r ''label'' \<noteq> single_item ''label'')
        \<and> extend_links main_item options_dicts = Inr updated"
      by simp
    then show ?thesis by blast
  qed
qed

lemma find_and_extend_None:
  "find_and_extend single_item main_list options_dicts = Inr None \<Longrightarrow>
   \<forall>r \<in> set main_list. r ''label'' \<noteq> single_item ''label''"
  by (induction main_list) (auto split: option.splits sum.splits if_splits)

text \<open>What one iteration of the outer loop of \<^verbatim>\<open>update_options\<close> does when it returns.\<close>

lemma merge_item_cases:
  assumes "merge_item single_item main_list options_dicts = Inr main_list'"
  shows "(\<exists>before main_item rest updated.
            main_list = before @ main_item # rest
          \<and> main_list' = before @ updated # rest
          \<and> main_item ''label'' = single_item ''label''
          \<and> (\<forall>r \<in> set before. r ''label'' \<noteq> single_item ''label'')
          \<and> extend_links main_item options_dicts = Inr updated)
       \<or> ((\<forall>r \<in> set main_list. r ''label'' \<noteq> single_item ''label'')
          \<and> (\<exists>item. main_list' = main_list @ [item]
                \<and> init_links single_item options_dicts = Inr item))"
proof (cases "find_and_extend single_item main_list options_dicts")
  case (Inl e)
  with assms show ?thesis by (simp add: merge_item_def)
next
  case (Inr found)
  show ?thesis
  proof (cases found)
    case None
    with Inr assms obtain item where
      "main_list' = main_list @ [item]" "init_links single_item options_dicts = Inr item"
      by (cases options_dicts) (auto simp: merge_item_def split: sum.splits if_splits)
    with find_and_extend_None [OF Inr [unfolded None]] show ?thesis by blast
  next
    case (Some ml)
    with Inr assms have "ml = main_list'" by (simp add: merge_item_def)
    with find_and_extend_Some [OF Inr [unfolded Some]] show ?thesis by blast
  qed
qed


text \<open>
  Claim C1, as stated, has every link array initialised on a record that found no
  match. The source guards both branches with \<^verbatim>\<open>if options_list != []\<close>: for a link
  whose source list is empty no array is created, not even an empty one.
\<close>

theorem update_options_empty_source_counterexample:
  "update_options [[''label'' \<mapsto> PStr ''Heat'', ''value'' \<mapsto> PStr ''heat'']] []
     [(''climate_model_options'', []),
      (''scenario_options'', [[''label'' \<mapsto> PStr ''SSP1-2.6'', ''value'' \<mapsto> PStr ''ssp126'']])]
   = Inr [[''label'' \<mapsto> PStr ''Heat'', ''value'' \<mapsto> PStr ''heat'',
           ''scenario_options'' \<mapsto> PList [PStr ''ssp126'']]]
   \<and> [''label'' \<mapsto> PStr ''Heat'', ''value'' \<mapsto> PStr ''heat'',
       ''scenario_options'' \<mapsto> PList [PStr ''ssp126'']] ''climate_model_options'' = None"
  by (simp add: merge_item_def)

text \<open>
  Claim C1, amended. Take one incoming record of a call of \<^verbatim>\<open>update_options\<close> whose
  link names are distinct, and let the step for this record return. If a record of
  the accumulator has the label of the incoming record, the first such record is the
  only one that changes: for each link with a source list that is not empty its array
  was there, and the values of the source list that were not in it are appended at its
  end, in the order of the source list, the old entries staying in place; every other
  field is as before. If no record has that label, the incoming record is appended at
  the end of the accumulator with, for each link whose source list is not empty, the
  array of all values of the source list, and with all its other fields unchanged. A
  link with an empty source list changes nothing in either case.
\<close>

theorem merge_item_links:
  assumes "merge_item single_item main_list options_dicts = Inr main_list'"
    and "distinct (map fst options_dicts)"
  shows "((\<exists>r \<in> set main_list. r ''label'' = single_item ''label'') \<longrightarrow>
          (\<exists>before main_item rest updated.
              main_list = before @ main_item # rest
            \<and> main_list' = before @ updated # rest
            \<and> main_item ''label'' = single_item ''label''
            \<and> (\<forall>r \<in> set before. r ''label'' \<noteq> single_item ''label'')
            \<and> (\<forall>name src. (name, src) \<in> set options_dicts \<and> src \<noteq> [] \<longrightarrow>
                  (\<exists>old vals. main_item name = Some (PList old) \<and> values_of src = Inr vals
                     \<and> updated name = Some (PList (old @ filter (\<lambda>v. v \<notin> set old) vals))))
            \<and> (\<forall>k. (\<forall>src. (k, src) \<in> set options_dicts \<longrightarrow> src = []) \<longrightarrow>
                  updated k = main_item k)))
       \<and> ((\<forall>r \<in> set main_list. r ''label'' \<noteq> single_item ''label'') \<longrightarrow>
          (\<exists>item. main_list' = main_list @ [item]
            \<and> (\<forall>name src. (name, src) \<in> set options_dicts \<and> src \<noteq> [] \<longrightarrow>
                  (\<exists>vals. values_of src = Inr vals \<and> item name = Some (PList vals)))
            \<and> (\<forall>k. (\<forall>src. (k, src) \<in> set options_dicts \<longrightarrow> src = []) \<longrightarrow>
                  item k = single_item k)))"
proof -
  from merge_item_cases [OF assms(1)] show ?thesis
  proof
    assume "\<exists>before main_item rest updated.
            main_list = before @ main_item # rest
          \<and> main_list' = before @ updated # rest
          \<and> main_item ''label'' = single_item ''label''
          \<and> (\<forall>r \<in> set before. r ''label'' \<noteq> single_item ''label'')
          \<and> extend_links main_item options_dicts = Inr updated"
    then obtain before main_item rest updated where
      found: "main_list = before @ main_item # rest" "main_list' = before @ updated # rest"
        "main_item ''label'' = single_item ''label''"
        "\<forall>r \<in> set before. r ''label'' \<noteq> single_item ''label''"
      and ext: "extend_links main_item options_dicts = Inr updated"
      by blast
    have fields: "\<forall>name src. (name, src) \<in> set options_dicts \<and> src \<noteq> [] \<longrightarrow>
                  (\<exists>old vals. main_item name = Some (PList old) \<and> values_of src = Inr vals
                     \<and> updated name = Some (PList (old @ filter (\<lambda>v. v \<notin> set old) vals)))"
      using extend_links_field [OF ext assms(2)] by blast
    have others: "\<forall>k. (\<forall>src. (k, src) \<in> set options_dicts \<longrightarrow> src = []) \<longrightarrow>
                  updated k = main_item k"
      using extend_links_other [OF ext] by blast
    from found have "\<not> (\<forall>r \<in> set main_list. r ''label'' \<noteq> single_item ''label'')"
      by auto
    with found fields others show ?thesis by blast
  next
    assume "(\<forall>r \<in> set main_list. r ''label'' \<noteq> single_item ''label'')
          \<and> (\<exists>item. main_list' = main_list @ [item]
                \<and> init_links single_item options_dicts = Inr item)"
    then obtain item where
      none: "\<forall>r \<in> set main_list. r ''label'' \<noteq> single_item ''label''"
      and item: "main_list' = main_list @ [item]"
      and init: "init_links single_item options_dicts = Inr item"
      by blast
    have fields: "\<forall>name src. (name, src) \<in> set options_dicts \<and> src \<noteq> [] \<longrightarrow>
                  (\<exists>vals. values_of src = Inr vals \<and> item name = Some (PList vals))"
      using init_links_field [OF init assms(2)] by blast
    have others: "\<forall>k. (\<forall>src. (k, src) \<in> set options_dicts \<longrightarrow> src = []) \<longrightarrow>
                  item k = single_item k"
      using init_links_other [OF init] by blast
    from none item fields others show ?thesis by blast
  qed
qed

theorem merge_item_links_witness:
  "merge_item [''label'' \<mapsto> PStr ''Heat'', ''value'' \<mapsto> PStr ''heat2'']
     [[''label'' \<mapsto> PStr ''Cold'', ''value'' \<mapsto> PStr ''cold'',
       ''scenario_options'' \<mapsto> PList [PStr ''ssp126'']],
      [''label'' \<mapsto> PStr ''Heat'', ''value'' \<mapsto> PStr ''heat'',
       ''scenario_options'' \<mapsto> PList [PStr ''ssp126'']]]
     [(''scenario_options'', [[''label'' \<mapsto> PStr ''SSP1-2.6'', ''value'' \<mapsto> PStr ''ssp126''],
                             [''label'' \<mapsto> PStr ''SSP5-8.5'', ''value'' \<mapsto> PStr ''ssp585'']])]
   = Inr [[''label'' \<mapsto> PStr ''Cold'', ''value'' \<mapsto> PStr ''cold'',
           ''scenario_options'' \<mapsto> PList [PStr ''ssp126'']],
          [''label'' \<mapsto> PStr ''Heat'', ''value'' \<mapsto> PStr ''heat'',
           ''scenario_options'' \<mapsto> PList [PStr ''ssp126'', PStr ''ssp585'']]]
   \<and> (\<exists>before main_item rest updated.
         [[''label'' \<mapsto> PStr ''Cold'', ''value'' \<mapsto> PStr ''cold'',
           ''scenario_options'' \<mapsto> PList [PStr ''ssp126'']],
          [''label'' \<mapsto> PStr ''Heat'', ''value'' \<mapsto> PStr ''heat'',
           ''scenario_options'' \<mapsto> PList [PStr ''ssp126'', PStr ''ssp585'']]]
         = before @ updated # rest
       \<and> main_item ''label'' = Some (PStr ''Heat'')
       \<and> updated ''value'' = main_item ''value'')
   \<and> merge_item [''label'' \<mapsto> PStr ''Wind'', ''value'' \<mapsto> PStr ''wind'']
     [[''label'' \<mapsto> PStr ''Cold'', ''value'' \<mapsto> PStr ''cold'']]
     [(''scenario_options'', [[''label'' \<mapsto> PStr ''SSP1-2.6'', ''value'' \<mapsto> PStr ''ssp126'']])]
   = Inr [[''label'' \<mapsto> PStr ''Cold'', ''value'' \<mapsto> PStr ''cold''],
          [''label'' \<mapsto> PStr ''Wind'', ''value'' \<mapsto> PStr ''wind'',
           ''scenario_options'' \<mapsto> PList [PStr ''ssp126'']]]
   \<and> (\<exists>item.
         [[''label'' \<mapsto> PStr ''Cold'', ''value'' \<mapsto> PStr ''cold''],
          [''label'' \<mapsto> PStr ''Wind'', ''value'' \<mapsto> PStr ''wind'',
           ''scenario_options'' \<mapsto> PList [PStr ''ssp126'']]]
         = [[''label'' \<mapsto> PStr ''Cold'', ''value'' \<mapsto> PStr ''cold'']] @ [item]
       \<and> item ''value'' = Some (PStr ''wind''))"
proof -
  let ?cold = "[''label'' \<mapsto> PStr ''Cold'', ''value'' \<mapsto> PStr ''cold'',
       ''scenario_options'' \<mapsto> PList [PStr ''ssp126'']]"
  let ?heat = "[''label'' \<mapsto> PStr ''Heat'', ''value'' \<mapsto> PStr ''heat'',
       ''scenario_options'' \<mapsto> PList [PStr ''ssp126'']]"
  let ?heat' = "[''label'' \<mapsto> PStr ''Heat'', ''value'' \<mapsto> PStr ''heat'',
       ''scenario_options'' \<mapsto> PList [PStr ''ssp126'', PStr ''ssp585'']]"
  let ?incoming = "[''label'' \<mapsto> PStr ''Heat'', ''value'' \<mapsto> PStr ''heat2'']"
  let ?links = "[(''scenario_options'', [[''label'' \<mapsto> PStr ''SSP1-2.6'', ''value'' \<mapsto> PStr ''ssp126''],
                             [''label'' \<mapsto> PStr ''SSP5-8.5'', ''value'' \<mapsto> PStr ''ssp585'']])]"
  have run1: "merge_item ?incoming [?cold, ?heat] ?links = Inr [?cold, ?heat']"
    by (simp add: merge_item_def iadd_def)
  have d1: "distinct (map fst ?links)" by simp
  have ex1: "\<exists>r \<in> set [?cold, ?heat]. r ''label'' = ?incoming ''label''" by simp
  from merge_item_links [OF run1 d1] ex1
  obtain before main_item rest updated where
    "[?cold, ?heat'] = before @ updated # rest"
    "main_item ''label'' = ?incoming ''label''"
    "\<forall>k. (\<forall>src. (k, src) \<in> set ?links \<longrightarrow> src = []) \<longrightarrow> updated k = main_item k"
    by blast
  then have part1: "\<exists>before main_item rest updated.
      [?cold, ?heat'] = before @ updated # rest
       \<and> main_item ''label'' = Some (PStr ''Heat'')
       \<and> updated ''value'' = main_item ''value''"
    by (intro exI [of _ before] exI [of _ main_item] exI [of _ rest] exI [of _ updated]) simp
  let ?cold2 = "[''label'' \<mapsto> PStr ''Cold'', ''value'' \<mapsto> PStr ''cold'']"
  let ?wind = "[''label'' \<mapsto> PStr ''Wind'', ''value'' \<mapsto> PStr ''wind'']"
  let ?wind' = "[''label'' \<mapsto> PStr ''Wind'', ''value'' \<mapsto> PStr ''wind'',
           ''scenario_options'' \<mapsto> PList [PStr ''ssp126'']]"
  let ?links2 = "[(''scenario_options'', [[''label'' \<mapsto> PStr ''SSP1-2.6'', ''value'' \<mapsto> PStr ''ssp126'']])]"
  have run2: "merge_item ?wind [?cold2] ?links2 = Inr [?cold2, ?wind']"
    by (simp add: merge_item_def)
  have d2: "distinct (map fst ?links2)" by simp
  have none2: "\<forall>r \<in> set [?cold2]. r ''label'' \<noteq> ?wind ''label''" by simp
  from merge_item_links [OF run2 d2] none2
  obtain item where
    "[?cold2, ?wind'] = [?cold2] @ [item]"
    "\<forall>k. (\<forall>src. (k, src) \<in> set ?links2 \<longrightarrow> src = []) \<longrightarrow> item k = ?wind k"
    by blast
  then have part2: "\<exists>item. [?cold2, ?wind'] = [?cold2] @ [item] \<and> item ''value'' = Some (PStr ''wind'')"
    by (intro exI [of _ item]) simp
  from run1 part1 run2 part2 show ?thesis by blast
qed


section \<open>Merge identity by label\<close>

lemma dedupe_loop_fresh:
  "\<exists>zs. dedupe_loop xs acc = acc @ zs \<and> set zs \<inter> set acc = {}"
proof (induction xs arbitrary: acc)
  case Nil
  show ?case by simp
next
  case (Cons x xs)
  show ?case
  proof (cases "x \<in> set acc")
    case True
    with Cons.IH [of acc] show ?thesis by simp
  next
    case False
    from Cons.IH [of "acc @ [x]"] obtain zs where
      zs: "dedupe_loop xs (acc @ [x]) = (acc @ [x]) @ zs" "set zs \<inter> set (acc @ [x]) = {}"
      by blast
    with False have "dedupe_loop (x # xs) acc = acc @ (x # zs) \<and> set (x # zs) \<inter> set acc = {}"
      by auto
    then show ?thesis by blast
  qed
qed

lemma dedupe_loop_nth_fresh:
  assumes "length acc \<le> i" and "i < length (dedupe_loop xs acc)"
  shows "dedupe_loop xs acc ! i \<notin> set acc"
proof -
  from dedupe_loop_fresh [of xs acc] obtain zs where
    zs: "dedupe_loop xs acc = acc @ zs" "set zs \<inter> set acc = {}" by blast
  with assms have "dedupe_loop xs acc ! i = zs ! (i - length acc)" "i - length acc < length zs"
    by (auto simp: nth_append)
  then have "dedupe_loop xs acc ! i \<in> set zs" by simp
  with zs(2) show ?thesis by blast
qed

text \<open>
  One step of the outer loop, seen through the fields that are not link names: a
  record with a known label leaves them all as they are, a record with a new label is
  appended with its own.
\<close>

lemma merge_item_step:
  assumes "merge_item single_item main_list options_dicts = Inr main_list'"
  shows "(single_item ''label'' \<in> set (map (\<lambda>r. r ''label'') main_list)
          \<and> length main_list' = length main_list
          \<and> (\<forall>i < length main_list. \<forall>k. k \<notin> fst ` set options_dicts \<longrightarrow>
                (main_list' ! i) k = (main_list ! i) k))
       \<or> (single_item ''label'' \<notin> set (map (\<lambda>r. r ''label'') main_list)
          \<and> (\<exists>item. main_list' = main_list @ [item]
                \<and> (\<forall>k. k \<notin> fst ` set options_dicts \<longrightarrow> item k = single_item k)))"
proof -
  from merge_item_cases [OF assms] show ?thesis
  proof
    assume "\<exists>before main_item rest updated.
            main_list = before @ main_item # rest
          \<and> main_list' = before @ updated # rest
          \<and> main_item ''label'' = single_item ''label''
          \<and> (\<forall>r \<in> set before. r ''label'' \<noteq> single_item ''label'')
          \<and> extend_links main_item options_dicts = Inr updated"
    then obtain before main_item rest updated where
      ml: "main_list = before @ main_item # rest"
      and ml': "main_list' = before @ updated # rest"
      and lab: "main_item ''label'' = single_item ''label''"
      and ext: "extend_links main_item options_dicts = Inr updated"
      by blast
    have same: "updated k = main_item k" if "k \<notin> fst ` set options_dicts" for k
      using extend_links_other [OF ext, of k] that by (force simp: image_iff)
    have "(main_list' ! i) k = (main_list ! i) k"
      if "i < length main_list" "k \<notin> fst ` set options_dicts" for i k
      using same [OF that(2)] unfolding ml ml'
      by (cases "i < length before"; cases "i = length before") (simp_all add: nth_append nth_Cons')
    moreover from ml lab [symmetric]
    have "single_item ''label'' \<in> set (map (\<lambda>r. r ''label'') main_list)"
      by simp
    moreover from ml ml' have "length main_list' = length main_list" by simp
    ultimately show ?thesis by blast
  next
    assume "(\<forall>r \<in> set main_list. r ''label'' \<noteq> single_item ''label'')
          \<and> (\<exists>item. main_list' = main_list @ [item]
                \<and> init_links single_item options_dicts = Inr item)"
    then obtain item where
      none: "\<forall>r \<in> set main_list. r ''label'' \<noteq> single_item ''label''"
      and item: "main_list' = main_list @ [item]"
      and init: "init_links single_item options_dicts = Inr item"
      by blast
    have "item k = single_item k" if "k \<notin> fst ` set options_dicts" for k
      using init_links_other [OF init, of k] that by (force simp: image_iff)
    moreover from none have "single_item ''label'' \<notin> set (map (\<lambda>r. r ''label'') main_list)"
      by auto
    ultimately show ?thesis using item by blast
  qed
qed

lemma update_options_by_label:
  assumes "update_options single_list main_list options_dicts = Inr main_list'"
    and "''label'' \<notin> fst ` set options_dicts"
  shows "map (\<lambda>r. r ''label'') main_list'
           = dedupe_loop (map (\<lambda>r. r ''label'') single_list) (map (\<lambda>r. r ''label'') main_list)
       \<and> length main_list \<le> length main_list'
       \<and> (\<forall>i < length main_list. \<forall>k. k \<notin> fst ` set options_dicts \<longrightarrow>
             (main_list' ! i) k = (main_list ! i) k)
       \<and> (\<forall>i. length main_list \<le> i \<and> i < length main_list' \<longrightarrow>
             (\<exists>r. find (\<lambda>r. r ''label'' = (main_list' ! i) ''label'') single_list = Some r
                \<and> (\<forall>k. k \<notin> fst ` set options_dicts \<longrightarrow> (main_list' ! i) k = r k)))"
  using assms(1)
proof (induction single_list arbitrary: main_list)
  case Nil
  then show ?case by simp
next
  case (Cons x xs)
  let ?label = "\<lambda>r::pydict. r ''label''"
  let ?N = "fst ` set options_dicts"
  from Cons.prems obtain m1 where
    step: "merge_item x main_list options_dicts = Inr m1"
    and rest: "update_options xs m1 options_dicts = Inr main_list'"
    by (auto split: sum.splits)
  from Cons.IH [OF rest] have
    labels': "map ?label main_list' = dedupe_loop (map ?label xs) (map ?label m1)"
    and len': "length m1 \<le> length main_list'"
    and old': "\<forall>i < length m1. \<forall>k. k \<notin> ?N \<longrightarrow> (main_list' ! i) k = (m1 ! i) k"
    and new': "\<forall>i. length m1 \<le> i \<and> i < length main_list' \<longrightarrow>
             (\<exists>r. find (\<lambda>r. r ''label'' = (main_list' ! i) ''label'') xs = Some r
                \<and> (\<forall>k. k \<notin> ?N \<longrightarrow> (main_list' ! i) k = r k))"
    by blast+
  have fresh: "(main_list' ! i) ''label'' \<notin> set (map ?label m1)"
    if "length m1 \<le> i" "i < length main_list'" for i
  proof -
    from that have "i < length (map ?label main_list')" by simp
    with that(1) dedupe_loop_nth_fresh [of "map ?label m1" i "map ?label xs"] labels'
    have "map ?label main_list' ! i \<notin> set (map ?label m1)" by simp
    with that(2) show ?thesis by simp
  qed
  from merge_item_step [OF step] show ?case
  proof
    assume found: "x ''label'' \<in> set (map ?label main_list)
          \<and> length m1 = length main_list
          \<and> (\<forall>i < length main_list. \<forall>k. k \<notin> ?N \<longrightarrow> (m1 ! i) k = (main_list ! i) k)"
    with assms(2) have same: "map ?label m1 = map ?label main_list"
      by (intro nth_equalityI) simp_all
    have P1: "map ?label main_list'
           = dedupe_loop (map ?label (x # xs)) (map ?label main_list)"
      using found labels' same by simp
    have P2: "length main_list \<le> length main_list'"
      using found len' by simp
    have P3: "\<forall>i < length main_list. \<forall>k. k \<notin> ?N \<longrightarrow> (main_list' ! i) k = (main_list ! i) k"
      using found old' by simp
    have P4: "\<exists>r. find (\<lambda>r. r ''label'' = (main_list' ! i) ''label'') (x # xs) = Some r
                \<and> (\<forall>k. k \<notin> ?N \<longrightarrow> (main_list' ! i) k = r k)"
      if i: "length main_list \<le> i \<and> i < length main_list'" for i
    proof -
      from i found have i': "length m1 \<le> i" "i < length main_list'" by simp_all
      from fresh [OF i'] same found have "x ''label'' \<noteq> (main_list' ! i) ''label''"
        by auto
      with new' i' show ?thesis by simp
    qed
    from P1 P2 P3 P4 show ?thesis by blast
  next
    assume "x ''label'' \<notin> set (map ?label main_list)
          \<and> (\<exists>item. m1 = main_list @ [item] \<and> (\<forall>k. k \<notin> ?N \<longrightarrow> item k = x k))"
    then obtain item where
      new: "x ''label'' \<notin> set (map ?label main_list)"
      and m1: "m1 = main_list @ [item]"
      and item: "\<forall>k. k \<notin> ?N \<longrightarrow> item k = x k"
      by blast
    from item assms(2) have lab: "item ''label'' = x ''label''" by simp
    have P1: "map ?label main_list'
           = dedupe_loop (map ?label (x # xs)) (map ?label main_list)"
      using new labels' m1 lab by simp
    have P2: "length main_list \<le> length main_list'"
      using len' m1 by simp
    have P3: "\<forall>i < length main_list. \<forall>k. k \<notin> ?N \<longrightarrow> (main_list' ! i) k = (main_list ! i) k"
      using old' m1 by (simp add: nth_append)
    have P4: "\<exists>r. find (\<lambda>r. r ''label'' = (main_list' ! i) ''label'') (x # xs) = Some r
                \<and> (\<forall>k. k \<notin> ?N \<longrightarrow> (main_list' ! i) k = r k)"
      if i: "length main_list \<le> i \<and> i < length main_list'" for i
    proof (cases "i = length main_list")
      case True
      with old' m1 have agree: "\<forall>k. k \<notin> ?N \<longrightarrow> (main_list' ! i) k = item k"
        by simp
      with item assms(2) have "(main_list' ! i) ''label'' = x ''label''" by simp
      with agree item show ?thesis by simp
    next
      case False
      with i m1 have i': "length m1 \<le> i" "i < length main_list'" by simp_all
      from fresh [OF i'] m1 lab have "x ''label'' \<noteq> (main_list' ! i) ''label''"
        by auto
      with new' i' show ?thesis by simp
    qed
    from P1 P2 P3 P4 show ?thesis by blast
  qed
qed

text \<open>
  Claim C5. Let a merge run (a call of \<^verbatim>\<open>update_options\<close> whose link names do not
  include \<^verbatim>\<open>label\<close>) return. The labels of the new accumulator are the labels of the
  old one followed by the labels of the incoming records that are new, each once, in
  first-seen order: records with the same label are merged into one record, records
  with different labels stay different records, whatever their other fields. An
  accumulator with pairwise different labels stays so. Every record that was in the
  accumulator keeps all its fields that are not link arrays, its \<^verbatim>\<open>value\<close> among them;
  every record that is appended has the fields that are not link arrays of the first
  incoming record with its label.
\<close>

theorem merge_identity_by_label:
  assumes "update_options single_list main_list options_dicts = Inr main_list'"
    and "''label'' \<notin> fst ` set options_dicts"
  shows "map (\<lambda>r. r ''label'') main_list'
           = dedupe_loop (map (\<lambda>r. r ''label'') single_list) (map (\<lambda>r. r ''label'') main_list)
       \<and> (distinct (map (\<lambda>r. r ''label'') main_list) \<longrightarrow>
            distinct (map (\<lambda>r. r ''label'') main_list'))
       \<and> set (map (\<lambda>r. r ''label'') main_list')
           = set (map (\<lambda>r. r ''label'') main_list) \<union> set (map (\<lambda>r. r ''label'') single_list)
       \<and> length main_list \<le> length main_list'
       \<and> (\<forall>i < length main_list. \<forall>k. k \<notin> fst ` set options_dicts \<longrightarrow>
             (main_list' ! i) k = (main_list ! i) k)
       \<and> (\<forall>i. length main_list \<le> i \<and> i < length main_list' \<longrightarrow>
             (\<exists>r. find (\<lambda>r. r ''label'' = (main_list' ! i) ''label'') single_list = Some r
                \<and> (\<forall>k. k \<notin> fst ` set options_dicts \<longrightarrow> (main_list' ! i) k = r k)))"
proof -
  note main = update_options_by_label [OF assms]
  from main have labels: "map (\<lambda>r. r ''label'') main_list'
           = dedupe_loop (map (\<lambda>r. r ''label'') single_list) (map (\<lambda>r. r ''label'') main_list)"
    by blast
  have "distinct (map (\<lambda>r. r ''label'') main_list')"
    if "distinct (map (\<lambda>r. r ''label'') main_list)"
    unfolding labels using that by (rule distinct_dedupe_loop)
  moreover have "set (map (\<lambda>r. r ''label'') main_list')
           = set (map (\<lambda>r. r ''label'') main_list) \<union> set (map (\<lambda>r. r ''label'') single_list)"
    unfolding labels set_dedupe_loop by blast
  ultimately show ?thesis using main by blast
qed

theorem merge_identity_by_label_witness:
  "update_options
     [[''label'' \<mapsto> PStr ''Heat'', ''value'' \<mapsto> PStr ''heat1''],
      [''label'' \<mapsto> PStr ''Heat'', ''value'' \<mapsto> PStr ''heat2''],
      [''label'' \<mapsto> PStr ''Cold'', ''value'' \<mapsto> PStr ''heat1'']]
     []
     [(''scenario_options'', [[''label'' \<mapsto> PStr ''SSP1-2.6'', ''value'' \<mapsto> PStr ''ssp126'']])]
   = Inr [[''label'' \<mapsto> PStr ''Heat'', ''value'' \<mapsto> PStr ''heat1'',
           ''scenario_options'' \<mapsto> PList [PStr ''ssp126'']],
          [''label'' \<mapsto> PStr ''Cold'', ''value'' \<mapsto> PStr ''heat1'',
           ''scenario_options'' \<mapsto> PList [PStr ''ssp126'']]]
   \<and> map (\<lambda>r. r ''label'')
        [[''label'' \<mapsto> PStr ''Heat'', ''value'' \<mapsto> PStr ''heat1'',
           ''scenario_options'' \<mapsto> PList [PStr ''ssp126'']],
          [''label'' \<mapsto> PStr ''Cold'', ''value'' \<mapsto> PStr ''heat1'',
           ''scenario_options'' \<mapsto> PList [PStr ''ssp126'']]]
     = dedupe_loop [Some (PStr ''Heat''), Some (PStr ''Heat''), Some (PStr ''Cold'')] []"
proof -
  let ?single = "[[''label'' \<mapsto> PStr ''Heat'', ''value'' \<mapsto> PStr ''heat1''],
      [''label'' \<mapsto> PStr ''Heat'', ''value'' \<mapsto> PStr ''heat2''],
      [''label'' \<mapsto> PStr ''Cold'', ''value'' \<mapsto> PStr ''heat1'']]"
  let ?links = "[(''scenario_options'', [[''label'' \<mapsto> PStr ''SSP1-2.6'', ''value'' \<mapsto> PStr ''ssp126'']])]"
  let ?result = "[[''label'' \<mapsto> PStr ''Heat'', ''value'' \<mapsto> PStr ''heat1'',
           ''scenario_options'' \<mapsto> PList [PStr ''ssp126'']],
          [''label'' \<mapsto> PStr ''Cold'', ''value'' \<mapsto> PStr ''heat1'',
           ''scenario_options'' \<mapsto> PList [PStr ''ssp126'']]]"
  have run: "update_options ?single [] ?links = Inr ?result"
    by (simp add: merge_item_def iadd_def)
  have names: "''label'' \<notin> fst ` set ?links" by simp
  from merge_identity_by_label [OF run names]
  have "map (\<lambda>r. r ''label'') ?result
     = dedupe_loop (map (\<lambda>r. r ''label'') ?single) (map (\<lambda>r. r ''label'') [])"
    by blast
  then have "map (\<lambda>r. r ''label'') ?result
     = dedupe_loop [Some (PStr ''Heat''), Some (PStr ''Heat''), Some (PStr ''Cold'')] []"
    by simp
  with run show ?thesis by blast
qed

end
